theory Spec2Isabelle
  imports Complex_Main
begin

section \<open>Callbacks of a training loop (utils/callback.py)\<close>

text \<open>
  The module defines the hook interface \<^verbatim>\<open>Callback\<close>, the periodic gate
  \<^verbatim>\<open>PeriodicCallback\<close>, the two concrete hooks \<^verbatim>\<open>PeriodicSaver\<close> and
  \<^verbatim>\<open>SummaryWriter\<close>, and the aggregator \<^verbatim>\<open>Callbacks\<close>. Embedded here are the gate, the
  \<^verbatim>\<open>SummaryWriter\<close> (the aggregator looks for its type) and the aggregator; a hook of any
  other class, \<^verbatim>\<open>PeriodicSaver\<close> among them, enters the aggregator with arbitrary methods.

  Python objects are referred to by reference; a method either returns or raises, and
  what it changed before raising stays changed. So every method is a function from the
  state to an outcome that carries the state in both cases.
\<close>

subsection \<open>Values, errors, outcomes\<close>

type_synonym ref = nat
type_synonym addr = nat

datatype error =
    RuntimeError string
  | AttributeError string string
  | IndexError
  | ZeroDivisionError
  | Exception string

text \<open>\<open>AttributeError c a\<close>: an object of class \<open>c\<close> has no attribute \<open>a\<close>.
  \<open>Exception\<close> stands for whatever else a hook or the framework raises.\<close>

datatype ('a, 's) outcome = Return 'a 's | Raise error 's

subsection \<open>PeriodicCallback (lines 41-53)\<close>

text \<open>
  The instance attributes \<^verbatim>\<open>__period\<close> and \<^verbatim>\<open>epoch_num\<close>. Python integers are
  unbounded. \<^verbatim>\<open>_trigger\<close> is abstract (its body is \<^verbatim>\<open>pass\<close>); to count its
  invocations the field \<open>triggered\<close> records the value of \<^verbatim>\<open>epoch_num\<close> at each of
  them, oldest first.
\<close>

record periodic_callback =
  period :: int
  pc_epoch_num :: int
  triggered :: "int list"

definition PeriodicCallback_init :: "int \<Rightarrow> periodic_callback" where
  "PeriodicCallback_init p = \<lparr>period = p, pc_epoch_num = 0, triggered = []\<rparr>"

definition PeriodicCallback_trigger :: "periodic_callback \<Rightarrow> periodic_callback" where
  "PeriodicCallback_trigger self = self\<lparr>triggered := triggered self @ [pc_epoch_num self]\<rparr>"

text \<open>
  \<^verbatim>\<open>self.epoch_num += 1; if self.epoch_num % self.__period == 0: self._trigger()\<close>.
  The remainder by zero raises after the counter has been incremented. Python's \<^verbatim>\<open>%\<close>
  on integers takes the sign of the divisor, as \<open>mod\<close> on \<open>int\<close> does.
\<close>

definition PeriodicCallback_trigger_epoch ::
  "periodic_callback \<Rightarrow> (unit, periodic_callback) outcome" where
  "PeriodicCallback_trigger_epoch self =
     (let self1 = self\<lparr>pc_epoch_num := pc_epoch_num self + 1\<rparr> in
      if period self1 = 0 then Raise ZeroDivisionError self1
      else if pc_epoch_num self1 mod period self1 = 0
           then Return () (PeriodicCallback_trigger self1)
           else Return () self1)"

text \<open>The training loop calling \<^verbatim>\<open>trigger_epoch\<close> M times; an exception ends the run.\<close>

fun trigger_epoch_times :: "nat \<Rightarrow> periodic_callback \<Rightarrow> (unit, periodic_callback) outcome" where
  "trigger_epoch_times 0 self = Return () self"
| "trigger_epoch_times (Suc m) self =
     (case PeriodicCallback_trigger_epoch self of
        Raise e self1 \<Rightarrow> Raise e self1
      | Return u self1 \<Rightarrow> trigger_epoch_times m self1)"

subsection \<open>The world of the hooks\<close>

text \<open>
  The attributes of a \<^verbatim>\<open>SummaryWriter\<close> instance. An attribute that has not been
  assigned yet is \<open>None\<close>; reading it raises \<^verbatim>\<open>AttributeError\<close>. \<^verbatim>\<open>sess\<close> and
  \<^verbatim>\<open>summary_op\<close> can hold Python's \<^verbatim>\<open>None\<close>, which is the inner \<open>None\<close>.
\<close>

record summary_writer =
  log_dir :: string
  sw_epoch_num :: int
  graph :: "ref option"
  sess :: "ref option option"
  sw_writer :: "ref option"
  summary_op :: "ref option option"
  last_dp :: "ref option"

text \<open>
  The state outside the aggregator: the \<^verbatim>\<open>SummaryWriter\<close> instances by address and the
  graph collection under \<^verbatim>\<open>SUMMARY_WRITER_COLLECTION_KEY\<close>. Whatever else the framework
  and the other hooks keep lives in the extension of the record.
\<close>

record world =
  sw_obj :: "addr \<Rightarrow> summary_writer"
  collection :: "ref list"

text \<open>
  The external collaborators: the framework's calls, which may raise and may change the
  world, the clock, and the arithmetic of binary floating point. \<open>time_time k\<close> is what the
  \<open>k\<close>-th call of \<^verbatim>\<open>time.time()\<close> of the run returns, a float, given here by the real
  number it stands for. \<open>float_sub\<close> and \<open>float_div\<close> are \<^verbatim>\<open>-\<close> and \<^verbatim>\<open>/\<close> on floats:
  they return the rounded difference and quotient, whatever the rounding is. Comparing a
  float with another or with an integer is exact.
\<close>

record 'w env =
  get_default_graph :: "'w \<Rightarrow> ref"
  get_default_session :: "'w \<Rightarrow> ref option"
  graph_def :: "ref \<Rightarrow> 'w \<Rightarrow> ref"
  train_SummaryWriter :: "string \<Rightarrow> ref \<Rightarrow> 'w \<Rightarrow> (ref, 'w) outcome"
  merge_all_summaries :: "'w \<Rightarrow> (ref option, 'w) outcome"
  op_eval :: "ref \<Rightarrow> ref \<Rightarrow> 'w \<Rightarrow> (ref, 'w) outcome"
  add_summary :: "ref \<Rightarrow> ref \<Rightarrow> int \<Rightarrow> 'w \<Rightarrow> (unit, 'w) outcome"
  flush :: "ref \<Rightarrow> 'w \<Rightarrow> (unit, 'w) outcome"
  time_time :: "nat \<Rightarrow> real"
  float_sub :: "real \<Rightarrow> real \<Rightarrow> real"
  float_div :: "real \<Rightarrow> real \<Rightarrow> real"

text \<open>The float that the literal \<^verbatim>\<open>0.3\<close> denotes: the double nearest to three tenths,
  \<open>5404319552844595 / 2 ^ 54\<close>, a little below three tenths.\<close>

definition float_0_3 :: real where
  "float_0_3 = 5404319552844595 / 18014398509481984"

subsection \<open>SummaryWriter (lines 67-88) and Callback.before_train (lines 17-20)\<close>

definition upd_sw ::
  "addr \<Rightarrow> (summary_writer \<Rightarrow> summary_writer) \<Rightarrow> 'z world_scheme \<Rightarrow> 'z world_scheme" where
  "upd_sw a f w = w\<lparr>sw_obj := (sw_obj w)(a := f (sw_obj w a))\<rparr>"

definition SummaryWriter_init :: "string \<Rightarrow> summary_writer" where
  "SummaryWriter_init d =
     \<lparr>log_dir = d, sw_epoch_num = 0, graph = None, sess = None, sw_writer = None,
      summary_op = None, last_dp = None\<rparr>"

definition SummaryWriter__before_train ::
  "'z world_scheme env \<Rightarrow> addr \<Rightarrow> 'z world_scheme \<Rightarrow> (unit, 'z world_scheme) outcome" where
  "SummaryWriter__before_train tf a w =
     (case sess (sw_obj w a) of
        None \<Rightarrow> Raise (AttributeError ''SummaryWriter'' ''sess'') w
      | Some None \<Rightarrow> Raise (AttributeError ''NoneType'' ''graph_def'') w
      | Some (Some s) \<Rightarrow>
          (case train_SummaryWriter tf (log_dir (sw_obj w a)) (graph_def tf s w) w of
             Raise e w1 \<Rightarrow> Raise e w1
           | Return wr w1 \<Rightarrow>
               (let w2 = upd_sw a (\<lambda>self. self\<lparr>sw_writer := Some wr\<rparr>) w1;
                    w3 = w2\<lparr>collection := collection w2 @ [wr]\<rparr>
                in case merge_all_summaries tf w3 of
                     Raise e w4 \<Rightarrow> Raise e w4
                   | Return sop w4 \<Rightarrow>
                       Return () (upd_sw a (\<lambda>self. self\<lparr>summary_op := Some sop\<rparr>) w4))))"

text \<open>\<^verbatim>\<open>Callback.before_train\<close>, inherited: sets \<^verbatim>\<open>graph\<close> and \<^verbatim>\<open>sess\<close>, then calls
  the \<^verbatim>\<open>_before_train\<close> of the instance's class.\<close>

definition SummaryWriter_before_train ::
  "'z world_scheme env \<Rightarrow> addr \<Rightarrow> 'z world_scheme \<Rightarrow> (unit, 'z world_scheme) outcome" where
  "SummaryWriter_before_train tf a w =
     (let w1 = upd_sw a (\<lambda>self. self\<lparr>graph := Some (get_default_graph tf w)\<rparr>) w;
          w2 = upd_sw a (\<lambda>self. self\<lparr>sess := Some (get_default_session tf w1)\<rparr>) w1
      in SummaryWriter__before_train tf a w2)"

definition SummaryWriter_trigger_step ::
  "addr \<Rightarrow> ref \<Rightarrow> ref \<Rightarrow> ref \<Rightarrow> 'z world_scheme \<Rightarrow> (unit, 'z world_scheme) outcome" where
  "SummaryWriter_trigger_step a inputs outputs cost w =
     Return () (upd_sw a (\<lambda>self. self\<lparr>last_dp := Some inputs\<rparr>) w)"

definition SummaryWriter_trigger_epoch ::
  "'z world_scheme env \<Rightarrow> addr \<Rightarrow> 'z world_scheme \<Rightarrow> (unit, 'z world_scheme) outcome" where
  "SummaryWriter_trigger_epoch tf a w =
     (case summary_op (sw_obj w a) of
        None \<Rightarrow> Raise (AttributeError ''SummaryWriter'' ''summary_op'') w
      | Some None \<Rightarrow> Return () w
      | Some (Some sop) \<Rightarrow>
          (case last_dp (sw_obj w a) of
             None \<Rightarrow> Raise (AttributeError ''SummaryWriter'' ''last_dp'') w
           | Some dp \<Rightarrow>
               (case op_eval tf sop dp w of
                  Raise e w1 \<Rightarrow> Raise e w1
                | Return summary_str w1 \<Rightarrow>
                    (let w2 = upd_sw a (\<lambda>self. self\<lparr>sw_epoch_num := sw_epoch_num self + 1\<rparr>) w1
                     in case sw_writer (sw_obj w2 a) of
                          None \<Rightarrow> Raise (AttributeError ''SummaryWriter'' ''writer'') w2
                        | Some wr \<Rightarrow>
                            add_summary tf wr summary_str (sw_epoch_num (sw_obj w2 a)) w2))))"

subsection \<open>Hooks\<close>

text \<open>
  A hook in the aggregator's list is a reference to an object. Its class decides what its
  three methods do: an object whose type is exactly \<^verbatim>\<open>SummaryWriter\<close> runs the methods
  above; an instance of any other class (\<^verbatim>\<open>Callback\<close> itself, \<^verbatim>\<open>PeriodicSaver\<close>, a
  subclass written by the user, also a subclass of \<^verbatim>\<open>SummaryWriter\<close>) carries the name of
  its class and its methods, which are arbitrary.
\<close>

record 'w methods =
  m_before_train :: "'w \<Rightarrow> (unit, 'w) outcome"
  m_trigger_step :: "ref \<Rightarrow> ref \<Rightarrow> ref \<Rightarrow> 'w \<Rightarrow> (unit, 'w) outcome"
  m_trigger_epoch :: "'w \<Rightarrow> (unit, 'w) outcome"

datatype 'w hook = SummaryWriter addr | Instance string addr "'w methods"

fun hook_id :: "'w hook \<Rightarrow> addr" where
  "hook_id (SummaryWriter a) = a"
| "hook_id (Instance n a m) = a"

text \<open>\<^verbatim>\<open>type(cb) == SummaryWriter\<close> and \<^verbatim>\<open>type(cb).__name__\<close>.\<close>

fun is_SummaryWriter :: "'w hook \<Rightarrow> bool" where
  "is_SummaryWriter (SummaryWriter a) = True"
| "is_SummaryWriter (Instance n a m) = False"

fun type_name :: "'w hook \<Rightarrow> string" where
  "type_name (SummaryWriter a) = ''SummaryWriter''"
| "type_name (Instance n a m) = n"

fun hook_before_train ::
  "'z world_scheme env \<Rightarrow> 'z world_scheme hook \<Rightarrow> 'z world_scheme \<Rightarrow> (unit, 'z world_scheme) outcome" where
  "hook_before_train tf (SummaryWriter a) = SummaryWriter_before_train tf a"
| "hook_before_train tf (Instance n a m) = m_before_train m"

fun hook_trigger_step ::
  "'z world_scheme hook \<Rightarrow> ref \<Rightarrow> ref \<Rightarrow> ref \<Rightarrow> 'z world_scheme \<Rightarrow> (unit, 'z world_scheme) outcome" where
  "hook_trigger_step (SummaryWriter a) = SummaryWriter_trigger_step a"
| "hook_trigger_step (Instance n a m) = m_trigger_step m"

fun hook_trigger_epoch ::
  "'z world_scheme env \<Rightarrow> 'z world_scheme hook \<Rightarrow> 'z world_scheme \<Rightarrow> (unit, 'z world_scheme) outcome" where
  "hook_trigger_epoch tf (SummaryWriter a) = SummaryWriter_trigger_epoch tf a"
| "hook_trigger_epoch tf (Instance n a m) = m_trigger_epoch m"

subsection \<open>Callbacks: construction (lines 91-100)\<close>

text \<open>The attributes of the \<^verbatim>\<open>Callbacks\<close> instance; \<^verbatim>\<open>writer\<close> is not assigned before
  \<^verbatim>\<open>before_train\<close>.\<close>

record 'w callbacks_obj =
  callbacks :: "'w hook list"
  writer :: "ref option"

text \<open>The \<^verbatim>\<open>for idx, cb in enumerate(callbacks)\<close> loop up to its \<^verbatim>\<open>break\<close>: the index of
  the first element whose type is \<^verbatim>\<open>SummaryWriter\<close>, or \<open>None\<close> when the loop runs to its
  \<^verbatim>\<open>else\<close>.\<close>

fun find_SummaryWriter :: "nat \<Rightarrow> 'w hook list \<Rightarrow> nat option" where
  "find_SummaryWriter idx [] = None"
| "find_SummaryWriter idx (cb # cbs) =
     (if is_SummaryWriter cb then Some idx else find_SummaryWriter (Suc idx) cbs)"

text \<open>\<^verbatim>\<open>list.pop(idx)\<close> for an index in range, and \<^verbatim>\<open>list.insert(0, x)\<close>.\<close>

definition list_pop :: "nat \<Rightarrow> 'a list \<Rightarrow> 'a \<times> 'a list" where
  "list_pop idx xs = (xs ! idx, take idx xs @ drop (Suc idx) xs)"

definition list_insert0 :: "'a \<Rightarrow> 'a list \<Rightarrow> 'a list" where
  "list_insert0 x xs = x # xs"

definition Callbacks_init :: "'w hook list \<Rightarrow> error + 'w callbacks_obj" where
  "Callbacks_init cbs =
     (case find_SummaryWriter 0 cbs of
        None \<Rightarrow> Inl (RuntimeError ''callbacks must contain a SummaryWriter!'')
      | Some idx \<Rightarrow>
          (case list_pop idx cbs of
             (cb, rest) \<Rightarrow> Inr \<lparr>callbacks = list_insert0 cb rest, writer = None\<rparr>))"

subsection \<open>Callbacks: dispatch (lines 102-129)\<close>

text \<open>
  What the aggregator does to the outside, in the order it does it: the calls of the hooks'
  methods (with the hook's address and the arguments), the flush of the writer, and the line
  given to \<^verbatim>\<open>logger.info\<close> (the total and the \<^verbatim>\<open>name:time\<close> entries).
\<close>

datatype event =
    Call_before_train addr
  | Call_trigger_step addr ref ref ref
  | Call_trigger_epoch addr
  | Call_flush ref
  | Log_info real "(string \<times> real) list"

text \<open>A run: the aggregator, the world, the events so far, and how many times the clock
  has been read. The methods of the hooks and the framework act on the world only: they hold
  no reference to the aggregator, so they change neither its list nor its writer.\<close>

record 'z run =
  obj :: "'z world_scheme callbacks_obj"
  world :: "'z world_scheme"
  trace :: "event list"
  ticks :: nat

fun before_train_loop ::
  "'z world_scheme env \<Rightarrow> 'z world_scheme hook list \<Rightarrow> 'z run \<Rightarrow> (unit, 'z run) outcome" where
  "before_train_loop tf [] r = Return () r"
| "before_train_loop tf (cb # cbs) r =
     (case hook_before_train tf cb (world r) of
        Raise e w \<Rightarrow>
          Raise e (r\<lparr>world := w, trace := trace r @ [Call_before_train (hook_id cb)]\<rparr>)
      | Return u w \<Rightarrow>
          before_train_loop tf cbs
            (r\<lparr>world := w, trace := trace r @ [Call_before_train (hook_id cb)]\<rparr>))"

text \<open>\<^verbatim>\<open>tf.get_collection(KEY)[0]\<close> raises \<^verbatim>\<open>IndexError\<close> on an empty collection.\<close>

definition Callbacks_before_train ::
  "'z world_scheme env \<Rightarrow> 'z run \<Rightarrow> (unit, 'z run) outcome" where
  "Callbacks_before_train tf r =
     (case before_train_loop tf (callbacks (obj r)) r of
        Raise e r1 \<Rightarrow> Raise e r1
      | Return u r1 \<Rightarrow>
          (case collection (world r1) of
             [] \<Rightarrow> Raise IndexError r1
           | wr # rest \<Rightarrow> Return () (r1\<lparr>obj := (obj r1)\<lparr>writer := Some wr\<rparr>\<rparr>)))"

fun trigger_step_loop ::
  "ref \<Rightarrow> ref \<Rightarrow> ref \<Rightarrow> 'z world_scheme hook list \<Rightarrow> 'z run \<Rightarrow> (unit, 'z run) outcome" where
  "trigger_step_loop inputs outputs cost [] r = Return () r"
| "trigger_step_loop inputs outputs cost (cb # cbs) r =
     (case hook_trigger_step cb inputs outputs cost (world r) of
        Raise e w \<Rightarrow>
          Raise e (r\<lparr>world := w,
                     trace := trace r @ [Call_trigger_step (hook_id cb) inputs outputs cost]\<rparr>)
      | Return u w \<Rightarrow>
          trigger_step_loop inputs outputs cost cbs
            (r\<lparr>world := w,
               trace := trace r @ [Call_trigger_step (hook_id cb) inputs outputs cost]\<rparr>))"

definition Callbacks_trigger_step ::
  "ref \<Rightarrow> ref \<Rightarrow> ref \<Rightarrow> 'z run \<Rightarrow> (unit, 'z run) outcome" where
  "Callbacks_trigger_step inputs outputs cost r =
     trigger_step_loop inputs outputs cost (callbacks (obj r)) r"

text \<open>Lines 114-117: each hook between two readings of the clock; \<open>times'\<close> is the
  list \<^verbatim>\<open>times\<close>, which grows at its end.\<close>

fun trigger_epoch_loop ::
  "'z world_scheme env \<Rightarrow> 'z world_scheme hook list \<Rightarrow> real list \<Rightarrow> 'z run \<Rightarrow>
     (real list, 'z run) outcome" where
  "trigger_epoch_loop tf [] times' r = Return times' r"
| "trigger_epoch_loop tf (cb # cbs) times' r =
     (let s = time_time tf (ticks r);
          r1 = r\<lparr>ticks := ticks r + 1\<rparr>
      in case hook_trigger_epoch tf cb (world r1) of
           Raise e w \<Rightarrow>
             Raise e (r1\<lparr>world := w, trace := trace r1 @ [Call_trigger_epoch (hook_id cb)]\<rparr>)
         | Return u w \<Rightarrow>
             (let r2 = r1\<lparr>world := w, trace := trace r1 @ [Call_trigger_epoch (hook_id cb)]\<rparr>;
                  t = float_sub tf (time_time tf (ticks r2)) s;
                  r3 = r2\<lparr>ticks := ticks r2 + 1\<rparr>
              in trigger_epoch_loop tf cbs (times' @ [t]) r3))"

text \<open>Lines 124-128: \<^verbatim>\<open>for idx, t in enumerate(times)\<close>, with \<^verbatim>\<open>self.callbacks[idx]\<close>
  raising \<^verbatim>\<open>IndexError\<close> out of range. The test of line 126 is on floats: the rounded
  quotient against the float \<^verbatim>\<open>0.3\<close>, and the time against the integer 1.\<close>

fun heavy_msgs ::
  "'e env \<Rightarrow> 'w hook list \<Rightarrow> real \<Rightarrow> nat \<Rightarrow> real list \<Rightarrow> (string \<times> real) list \<Rightarrow>
     error + (string \<times> real) list" where
  "heavy_msgs tf cbs tot idx [] msgs = Inr msgs"
| "heavy_msgs tf cbs tot idx (t # ts) msgs =
     (if float_div tf t tot > float_0_3 \<and> t > 1
      then (if idx < length cbs
            then heavy_msgs tf cbs tot (Suc idx) ts (msgs @ [(type_name (cbs ! idx), t)])
            else Inl IndexError)
      else heavy_msgs tf cbs tot (Suc idx) ts msgs)"

text \<open>Lines 112-129. Reading \<^verbatim>\<open>self.writer\<close> raises \<^verbatim>\<open>AttributeError\<close> when
  \<^verbatim>\<open>before_train\<close> has not assigned it.\<close>

definition Callbacks_trigger_epoch ::
  "'z world_scheme env \<Rightarrow> 'z run \<Rightarrow> (unit, 'z run) outcome" where
  "Callbacks_trigger_epoch tf r =
     (let start = time_time tf (ticks r);
          r0 = r\<lparr>ticks := ticks r + 1\<rparr>
      in case trigger_epoch_loop tf (callbacks (obj r0)) [] r0 of
           Raise e r1 \<Rightarrow> Raise e r1
         | Return times' r1 \<Rightarrow>
             (case writer (obj r1) of
                None \<Rightarrow> Raise (AttributeError ''Callbacks'' ''writer'') r1
              | Some wr \<Rightarrow>
                  (case flush tf wr (world r1) of
                     Raise e w \<Rightarrow> Raise e (r1\<lparr>world := w, trace := trace r1 @ [Call_flush wr]\<rparr>)
                   | Return u w \<Rightarrow>
                       (let r2 = r1\<lparr>world := w, trace := trace r1 @ [Call_flush wr]\<rparr>;
                            tot = float_sub tf (time_time tf (ticks r2)) start;
                            r3 = r2\<lparr>ticks := ticks r2 + 1\<rparr>
                        in if tot < 3 then Return () r3
                           else (case heavy_msgs tf (callbacks (obj r3)) tot 0 times' [] of
                                   Inl e \<Rightarrow> Raise e r3
                                 | Inr msgs \<Rightarrow>
                                     Return () (r3\<lparr>trace := trace r3 @ [Log_info tot msgs]\<rparr>))))))"

subsection \<open>Reading an outcome and the clock\<close>

fun state_of :: "('a, 's) outcome \<Rightarrow> 's" where
  "state_of (Return x s) = s"
| "state_of (Raise e s) = s"

fun raised :: "('a, 's) outcome \<Rightarrow> error option" where
  "raised (Return x s) = None"
| "raised (Raise e s) = Some e"

fun is_Log_info :: "event \<Rightarrow> bool" where
  "is_Log_info (Log_info tot msgs) = True"
| "is_Log_info ev = False"

text \<open>
  A call of \<^verbatim>\<open>Callbacks.trigger_epoch\<close> from the run \<open>r\<close> reads the clock first at line 112
  (reading number \<open>ticks r\<close>), then before and after the hook at index \<open>k\<close> (lines 115 and
  117), and last at line 119, after the flush. So the elapsed time of hook \<open>k\<close> and the
  total \<^verbatim>\<open>tot\<close> are these float differences; \<open>trigger_epoch_loop_times\<close> and
  \<open>trigger_epoch_completes\<close> below show that they are the entries of \<^verbatim>\<open>times\<close> and the
  \<^verbatim>\<open>tot\<close> that the code computes. The total spans the whole dispatch: the hooks, the flush
  and whatever passes between them.
\<close>

definition hook_time :: "'w env \<Rightarrow> 'z run \<Rightarrow> nat \<Rightarrow> real" where
  "hook_time tf r k =
     float_sub tf (time_time tf (ticks r + 2 * k + 2)) (time_time tf (ticks r + 2 * k + 1))"

definition total_time :: "'w env \<Rightarrow> 'z run \<Rightarrow> real" where
  "total_time tf r =
     float_sub tf (time_time tf (ticks r + 2 * length (callbacks (obj r)) + 1))
       (time_time tf (ticks r))"

subsection \<open>Concrete hooks and lists\<close>

text \<open>
  An instance of the base class \<^verbatim>\<open>Callback\<close> (lines 16-39): \<^verbatim>\<open>trigger_step\<close> and
  \<^verbatim>\<open>trigger_epoch\<close> have empty bodies, and \<^verbatim>\<open>before_train\<close> stores the default graph
  and session in attributes of the instance, which the world above does not keep, before
  the empty \<^verbatim>\<open>_before_train\<close>.
\<close>

definition Callback_methods :: "'w methods" where
  "Callback_methods =
     \<lparr>m_before_train = Return (),
      m_trigger_step = (\<lambda>inputs outputs cost. Return ()),
      m_trigger_epoch = Return ()\<rparr>"

definition hooks_one_writer :: "world hook list" where
  "hooks_one_writer =
     [Instance ''PeriodicSaver'' 1 Callback_methods, SummaryWriter 0,
      Instance ''Callback'' 2 Callback_methods]"

definition hooks_two_writers :: "world hook list" where
  "hooks_two_writers =
     [Instance ''PeriodicSaver'' 1 Callback_methods, SummaryWriter 0,
      Instance ''Callback'' 2 Callback_methods, SummaryWriter 3]"

definition hooks_no_writer :: "world hook list" where
  "hooks_no_writer =
     [Instance ''PeriodicSaver'' 1 Callback_methods, Instance ''Callback'' 2 Callback_methods]"

text \<open>A hook whose three methods raise.\<close>

definition raising_methods :: "'w methods" where
  "raising_methods =
     \<lparr>m_before_train = Raise (Exception ''boom''),
      m_trigger_step = (\<lambda>inputs outputs cost. Raise (Exception ''boom'')),
      m_trigger_epoch = Raise (Exception ''boom'')\<rparr>"

definition good_hooks :: "world hook list" where
  "good_hooks =
     [SummaryWriter 0, Instance ''PeriodicSaver'' 1 Callback_methods,
      Instance ''Callback'' 2 Callback_methods]"

definition bad_hooks :: "world hook list" where
  "bad_hooks =
     [SummaryWriter 0, Instance ''Bad'' 1 raising_methods,
      Instance ''Callback'' 2 Callback_methods]"

text \<open>A clock that gives the listed readings in turn, and a framework in which every call
  succeeds: there is a default session, the writer created is the object 200, and the graph
  has no summaries, so that \<^verbatim>\<open>merge_all_summaries\<close> returns \<^verbatim>\<open>None\<close>. Its float
  operations return the exact difference and quotient: the readings used below are
  multiples of a quarter of a second, and every difference and quotient taken of them is
  such a short dyadic number too, which binary floating point returns without rounding.\<close>

definition clock_of :: "real list \<Rightarrow> nat \<Rightarrow> real" where
  "clock_of xs k = (if k < length xs then xs ! k else last xs)"

definition example_tf :: "real list \<Rightarrow> world env" where
  "example_tf readings =
     \<lparr>get_default_graph = (\<lambda>w. 100),
      get_default_session = (\<lambda>w. Some 101),
      graph_def = (\<lambda>s w. 102),
      train_SummaryWriter = (\<lambda>d g w. Return 200 w),
      merge_all_summaries = (\<lambda>w. Return None w),
      op_eval = (\<lambda>sop dp w. Return 300 w),
      add_summary = (\<lambda>wr str n w. Return () w),
      flush = (\<lambda>wr w. Return () w),
      time_time = clock_of readings,
      float_sub = (\<lambda>a b. a - b),
      float_div = (\<lambda>a b. a / b)\<rparr>"

text \<open>The same framework with a writer whose flush fails.\<close>

definition failing_flush_tf :: "real list \<Rightarrow> world env" where
  "failing_flush_tf readings =
     (example_tf readings)\<lparr>flush := (\<lambda>wr w. Raise (Exception ''disk'') w)\<rparr>"

text \<open>The run right after \<^verbatim>\<open>Callbacks(cbs)\<close>, every \<^verbatim>\<open>SummaryWriter\<close> fresh from its
  constructor, and the run after a \<^verbatim>\<open>before_train\<close> that has left the writer 200 in the
  aggregator and in the hook at address 0.\<close>

definition fresh_run :: "world hook list \<Rightarrow> unit run" where
  "fresh_run cbs =
     \<lparr>obj = \<lparr>callbacks = cbs, writer = None\<rparr>,
      world = \<lparr>sw_obj = (\<lambda>a. SummaryWriter_init ''log''), collection = []\<rparr>,
      trace = [], ticks = 0\<rparr>"

definition trained_run :: "world hook list \<Rightarrow> unit run" where
  "trained_run cbs =
     \<lparr>obj = \<lparr>callbacks = cbs, writer = Some 200\<rparr>,
      world = \<lparr>sw_obj = (\<lambda>a. SummaryWriter_init ''log'')
                 (0 := (SummaryWriter_init ''log'')
                    \<lparr>graph := Some 100, sess := Some (Some 101), sw_writer := Some 200,
                     summary_op := Some None\<rparr>),
               collection = [200]\<rparr>,
      trace = [], ticks = 0\<rparr>"

text \<open>The run in which \<^verbatim>\<open>before_train\<close> has been called on the hooks themselves but
  never on the aggregator, whose \<^verbatim>\<open>writer\<close> is still unassigned.\<close>

definition half_trained_run :: "world hook list \<Rightarrow> unit run" where
  "half_trained_run cbs = (trained_run cbs)\<lparr>obj := \<lparr>callbacks = cbs, writer = None\<rparr>\<rparr>"

text \<open>Sequences of clock readings for a dispatch to three hooks: at the start, before and
  after each hook, and after the flush. Only the hooks and the flush take time.
  \<^item> \<open>slow_readings\<close>: the hooks take 0.5, 3 and 0.5 seconds, the flush none; the total is 4.
  \<^item> \<open>skewed_readings\<close>: the hooks take 0.25, 2 and 0.25 seconds, the flush none; the total
    is 2.5.
  \<^item> \<open>slow_flush_readings\<close>: the hooks take 0.25 seconds each, the flush 3.25; the total
    is 4.
  \<^item> \<open>stalled_readings\<close>: the hooks take 0.5, 2 and 2 seconds, the flush none (it is used
    with the flush that fails, at once); the total is 4.5.\<close>

definition slow_readings :: "real list" where
  "slow_readings = [0, 0, 1 / 2, 1 / 2, 7 / 2, 7 / 2, 4, 4]"

definition skewed_readings :: "real list" where
  "skewed_readings = [0, 0, 1 / 4, 1 / 4, 9 / 4, 9 / 4, 5 / 2, 5 / 2]"

definition slow_flush_readings :: "real list" where
  "slow_flush_readings = [0, 0, 1 / 4, 1 / 4, 1 / 2, 1 / 2, 3 / 4, 4]"

definition stalled_readings :: "real list" where
  "stalled_readings = [0, 0, 1 / 2, 1 / 2, 5 / 2, 5 / 2, 9 / 2, 9 / 2]"

section \<open>Construction of the aggregator\<close>

lemma find_SummaryWriter_None:
  "find_SummaryWriter idx cbs = None \<longleftrightarrow> filter is_SummaryWriter cbs = []"
  by (induction cbs arbitrary: idx) auto

lemma find_SummaryWriter_Some:
  "find_SummaryWriter idx cbs = Some i \<Longrightarrow>
     idx \<le> i \<and> i - idx < length cbs \<and> is_SummaryWriter (cbs ! (i - idx)) \<and>
     filter is_SummaryWriter (take (i - idx) cbs) = []"
proof (induction cbs arbitrary: idx)
  case Nil
  then show ?case by simp
next
  case (Cons cb cbs)
  show ?case
  proof (cases "is_SummaryWriter cb")
    case True
    with Cons.prems show ?thesis by simp
  next
    case False
    with Cons.prems have f: "find_SummaryWriter (Suc idx) cbs = Some i" by simp
    from Cons.IH [OF f] have
      a: "Suc idx \<le> i" and b: "i - Suc idx < length cbs"
      and c: "is_SummaryWriter (cbs ! (i - Suc idx))"
      and d: "filter is_SummaryWriter (take (i - Suc idx) cbs) = []" by simp_all
    from a have e: "i - idx = Suc (i - Suc idx)" by simp
    show ?thesis using a b c d False by (simp add: e)
  qed
qed

lemma Callbacks_init_first:
  assumes "filter is_SummaryWriter cbs \<noteq> []"
  shows "\<exists>i. i < length cbs \<and> is_SummaryWriter (cbs ! i) \<and>
             filter is_SummaryWriter (take i cbs) = [] \<and>
             Callbacks_init cbs =
               Inr \<lparr>callbacks = cbs ! i # take i cbs @ drop (Suc i) cbs, writer = None\<rparr>"
proof -
  from assms obtain i where f: "find_SummaryWriter 0 cbs = Some i"
    using find_SummaryWriter_None [of 0 cbs] by (cases "find_SummaryWriter 0 cbs") auto
  from find_SummaryWriter_Some [OF f] have
    "i < length cbs" "is_SummaryWriter (cbs ! i)" "filter is_SummaryWriter (take i cbs) = []"
    by simp_all
  moreover have "Callbacks_init cbs =
      Inr \<lparr>callbacks = cbs ! i # take i cbs @ drop (Suc i) cbs, writer = None\<rparr>"
    by (simp add: Callbacks_init_def f list_pop_def list_insert0_def)
  ultimately show ?thesis by blast
qed

lemma filter_split_at:
  assumes "i < length cbs"
  shows "filter P cbs = filter P (take i cbs) @ filter P [cbs ! i] @ filter P (drop (Suc i) cbs)"
proof -
  have "cbs = take i cbs @ cbs ! i # drop (Suc i) cbs"
    using assms by (simp add: id_take_nth_drop)
  then have "filter P cbs = filter P (take i cbs @ cbs ! i # drop (Suc i) cbs)" by simp
  also have "\<dots> = filter P (take i cbs) @ filter P [cbs ! i] @ filter P (drop (Suc i) cbs)"
    by simp
  finally show ?thesis .
qed

text \<open>
  C1. A list of N hooks with exactly one hook of type \<^verbatim>\<open>SummaryWriter\<close>: the constructor
  succeeds, the stored sequence has the N hooks, that hook is at index 0, and the other
  N-1 hooks follow it in the order they had.
\<close>

theorem Callbacks_init_single_SummaryWriter:
  assumes "length (filter is_SummaryWriter cbs) = 1"
  shows "\<exists>cs. Callbacks_init cbs = Inr \<lparr>callbacks = cs, writer = None\<rparr> \<and>
               length cs = length cbs \<and>
               [cs ! 0] = filter is_SummaryWriter cbs \<and>
               tl cs = filter (\<lambda>cb. \<not> is_SummaryWriter cb) cbs"
proof -
  from assms have ne: "filter is_SummaryWriter cbs \<noteq> []" by auto
  from Callbacks_init_first [OF ne] obtain i where
    i: "i < length cbs" and sw: "is_SummaryWriter (cbs ! i)"
    and pre: "filter is_SummaryWriter (take i cbs) = []"
    and init: "Callbacks_init cbs =
               Inr \<lparr>callbacks = cbs ! i # take i cbs @ drop (Suc i) cbs, writer = None\<rparr>"
    by blast
  have split: "filter is_SummaryWriter cbs =
      cbs ! i # filter is_SummaryWriter (drop (Suc i) cbs)"
    using filter_split_at [OF i, of is_SummaryWriter] pre sw by simp
  with assms have post: "filter is_SummaryWriter (drop (Suc i) cbs) = []" by simp
  have one: "[cbs ! i] = filter is_SummaryWriter cbs" using split post by simp
  have a: "filter (\<lambda>cb. \<not> is_SummaryWriter cb) (take i cbs) = take i cbs"
    using pre by (simp add: filter_empty_conv filter_id_conv)
  have b: "filter (\<lambda>cb. \<not> is_SummaryWriter cb) (drop (Suc i) cbs) = drop (Suc i) cbs"
    using post by (simp add: filter_empty_conv filter_id_conv)
  have rest: "take i cbs @ drop (Suc i) cbs = filter (\<lambda>cb. \<not> is_SummaryWriter cb) cbs"
    using filter_split_at [OF i, of "\<lambda>cb. \<not> is_SummaryWriter cb"] a b sw by simp
  have len: "length (cbs ! i # take i cbs @ drop (Suc i) cbs) = length cbs"
    using i by simp
  show ?thesis
    using i
    by (intro exI [of _ "cbs ! i # take i cbs @ drop (Suc i) cbs"])
       (simp add: init one [symmetric] rest [symmetric])
qed

theorem Callbacks_init_single_SummaryWriter_witness:
  "length (filter is_SummaryWriter hooks_one_writer) = 1 \<and>
   Callbacks_init hooks_one_writer =
     Inr \<lparr>callbacks = [SummaryWriter 0, Instance ''PeriodicSaver'' 1 Callback_methods,
                        Instance ''Callback'' 2 Callback_methods],
          writer = None\<rparr>"
proof -
  have h: "length (filter is_SummaryWriter hooks_one_writer) = 1"
    by (simp add: hooks_one_writer_def)
  from Callbacks_init_single_SummaryWriter [OF h] obtain cs where
    init: "Callbacks_init hooks_one_writer = Inr \<lparr>callbacks = cs, writer = None\<rparr>"
    and len: "length cs = length hooks_one_writer"
    and hd: "[cs ! 0] = filter is_SummaryWriter hooks_one_writer"
    and tl: "tl cs = filter (\<lambda>cb. \<not> is_SummaryWriter cb) hooks_one_writer"
    by blast
  from len have "cs \<noteq> []" by (auto simp add: hooks_one_writer_def)
  then have "cs = cs ! 0 # tl cs" by (cases cs) simp_all
  with hd tl have "cs = [SummaryWriter 0, Instance ''PeriodicSaver'' 1 Callback_methods,
                         Instance ''Callback'' 2 Callback_methods]"
    by (simp add: hooks_one_writer_def)
  with h init show ?thesis by simp
qed

text \<open>
  C5. A list with no hook of type \<^verbatim>\<open>SummaryWriter\<close>: the constructor raises
  \<^verbatim>\<open>RuntimeError("callbacks must contain a SummaryWriter!")\<close>, so it never succeeds.
\<close>

theorem Callbacks_init_no_SummaryWriter:
  assumes "filter is_SummaryWriter cbs = []"
  shows "Callbacks_init cbs = Inl (RuntimeError ''callbacks must contain a SummaryWriter!'')"
  using assms find_SummaryWriter_None [of 0 cbs] by (simp add: Callbacks_init_def)

theorem Callbacks_init_no_SummaryWriter_witness:
  "filter is_SummaryWriter hooks_no_writer = [] \<and>
   Callbacks_init hooks_no_writer =
     Inl (RuntimeError ''callbacks must contain a SummaryWriter!'')"
proof -
  have h: "filter is_SummaryWriter hooks_no_writer = []"
    by (simp add: hooks_no_writer_def)
  show ?thesis using h Callbacks_init_no_SummaryWriter [OF h] by simp
qed

text \<open>
  C9. A list with two or more hooks of type \<^verbatim>\<open>SummaryWriter\<close>: the constructor succeeds;
  the first of them, at index \<open>i\<close>, goes to index 0, and the rest of the stored sequence
  is the list without its element \<open>i\<close>, so every other hook, the later
  \<^verbatim>\<open>SummaryWriter\<close> hooks among them, keeps its place relative to the others.
\<close>

theorem Callbacks_init_several_SummaryWriters:
  assumes "2 \<le> length (filter is_SummaryWriter cbs)"
  shows "\<exists>i cs. i < length cbs \<and> is_SummaryWriter (cbs ! i) \<and>
               (\<forall>j<i. \<not> is_SummaryWriter (cbs ! j)) \<and>
               Callbacks_init cbs = Inr \<lparr>callbacks = cs, writer = None\<rparr> \<and>
               cs ! 0 = cbs ! i \<and>
               tl cs = take i cbs @ drop (Suc i) cbs \<and>
               length (filter is_SummaryWriter (tl cs)) = length (filter is_SummaryWriter cbs) - 1"
proof -
  from assms have ne: "filter is_SummaryWriter cbs \<noteq> []" by auto
  from Callbacks_init_first [OF ne] obtain i where
    i: "i < length cbs" and sw: "is_SummaryWriter (cbs ! i)"
    and pre: "filter is_SummaryWriter (take i cbs) = []"
    and init: "Callbacks_init cbs =
               Inr \<lparr>callbacks = cbs ! i # take i cbs @ drop (Suc i) cbs, writer = None\<rparr>"
    by blast
  have before: "\<forall>j<i. \<not> is_SummaryWriter (cbs ! j)"
  proof (intro allI impI)
    fix j assume j: "j < i"
    with i have "take i cbs ! j = cbs ! j" "j < length (take i cbs)" by simp_all
    then have "cbs ! j \<in> set (take i cbs)" by (metis nth_mem)
    with pre show "\<not> is_SummaryWriter (cbs ! j)" by (simp add: filter_empty_conv)
  qed
  have cnt: "length (filter is_SummaryWriter (take i cbs @ drop (Suc i) cbs)) =
             length (filter is_SummaryWriter cbs) - 1"
  proof -
    have "length (filter is_SummaryWriter cbs) =
          length (filter is_SummaryWriter (take i cbs)) + 1 +
          length (filter is_SummaryWriter (drop (Suc i) cbs))"
      by (subst filter_split_at [OF i]) (simp add: sw)
    then show ?thesis by simp
  qed
  show ?thesis
    using i
    by (intro exI [of _ i] exI [of _ "cbs ! i # take i cbs @ drop (Suc i) cbs"])
       (simp add: sw before init cnt del: filter_append)
qed

theorem Callbacks_init_several_SummaryWriters_witness:
  "2 \<le> length (filter is_SummaryWriter hooks_two_writers) \<and>
   (\<exists>i cs. i < length hooks_two_writers \<and> is_SummaryWriter (hooks_two_writers ! i) \<and>
      (\<forall>j<i. \<not> is_SummaryWriter (hooks_two_writers ! j)) \<and>
      Callbacks_init hooks_two_writers = Inr \<lparr>callbacks = cs, writer = None\<rparr> \<and>
      cs ! 0 = hooks_two_writers ! i \<and>
      tl cs = take i hooks_two_writers @ drop (Suc i) hooks_two_writers \<and>
      length (filter is_SummaryWriter (tl cs)) =
        length (filter is_SummaryWriter hooks_two_writers) - 1)"
proof -
  have h: "2 \<le> length (filter is_SummaryWriter hooks_two_writers)"
    by (simp add: hooks_two_writers_def)
  show ?thesis using h Callbacks_init_several_SummaryWriters [OF h] by simp
qed

section \<open>The periodic gate\<close>

lemma div_step_fire:
  fixes a P :: int
  assumes "0 < P" "(a + 1) mod P = 0"
  shows "(a + 1) div P = a div P + 1" "(a div P + 1) * P = a + 1"
proof -
  from assms(2) obtain q where q: "a + 1 = q * P" by (metis mod_eq_0_iff_dvd dvd_def mult.commute)
  then have a: "a = (q - 1) * P + (P - 1)" by (simp add: algebra_simps)
  have "a div P = q - 1"
    by (subst a) (use assms(1) in \<open>simp add: div_pos_pos_trivial\<close>)
  moreover have "(a + 1) div P = q" using q assms(1) by simp
  ultimately show "(a + 1) div P = a div P + 1" by simp
  with q \<open>(a + 1) div P = q\<close> show "(a div P + 1) * P = a + 1" by simp
qed

lemma div_step_idle:
  fixes a P :: int
  assumes "0 < P" "(a + 1) mod P \<noteq> 0"
  shows "(a + 1) div P = a div P"
proof -
  define q where "q = (a + 1) div P"
  define r where "r = (a + 1) mod P"
  have "0 \<le> r" "r < P" using assms(1) by (simp_all add: r_def)
  with assms(2) have r: "0 < r" "r < P" by (simp_all add: r_def)
  have "a + 1 = q * P + r" by (simp add: q_def r_def)
  then have a: "a = q * P + (r - 1)" by simp
  have "a div P = q"
    by (subst a) (use r assms(1) in \<open>simp add: div_pos_pos_trivial\<close>)
  then show ?thesis by (simp add: q_def)
qed

lemma upto_snoc: "(1::int) \<le> n + 1 \<Longrightarrow> [1..n + 1] = [1..n] @ [n + 1]"
  by (simp add: upto_rec2)

lemma multiples_upto:
  assumes P: "0 < P"
  shows "filter (\<lambda>k. k mod P = 0) [1..int M] = map (\<lambda>j. j * P) [1..int M div P]"
proof (induction M)
  case 0
  have "(0::int) div P = 0" by simp
  then show ?case by simp
next
  case (Suc M)
  have s: "int (Suc M) = int M + 1" by simp
  have up: "[1..int M + 1] = [1..int M] @ [int M + 1]"
    by (rule upto_snoc) simp
  show ?case unfolding s
  proof (cases "(int M + 1) mod P = 0")
    case True
    from div_step_fire [OF P True] have
      d: "(int M + 1) div P = int M div P + 1" and m: "(int M div P + 1) * P = int M + 1"
      by simp_all
    have nn: "0 \<le> int M div P" using P by (simp add: pos_imp_zdiv_nonneg_iff)
    have upd: "[1..int M div P + 1] = [1..int M div P] @ [int M div P + 1]"
      by (rule upto_snoc) (use nn in simp)
    have "filter (\<lambda>k. k mod P = 0) [1..int M + 1] =
          filter (\<lambda>k. k mod P = 0) [1..int M] @ [int M + 1]"
      unfolding up using True by simp
    also have "\<dots> = map (\<lambda>j. j * P) [1..int M div P] @ [(int M div P + 1) * P]"
      unfolding Suc.IH m ..
    also have "\<dots> = map (\<lambda>j. j * P) [1..int M div P + 1]"
      unfolding upd by simp
    finally show "filter (\<lambda>k. k mod P = 0) [1..int M + 1] =
                  map (\<lambda>j. j * P) [1..(int M + 1) div P]"
      unfolding d .
  next
    case False
    from div_step_idle [OF P False] have d: "(int M + 1) div P = int M div P" .
    have "filter (\<lambda>k. k mod P = 0) [1..int M + 1] = filter (\<lambda>k. k mod P = 0) [1..int M]"
      unfolding up using False by simp
    then show "filter (\<lambda>k. k mod P = 0) [1..int M + 1] =
               map (\<lambda>j. j * P) [1..(int M + 1) div P]"
      unfolding d Suc.IH .
  qed
qed

lemma trigger_epoch_once:
  assumes "period self \<noteq> 0"
  shows "PeriodicCallback_trigger_epoch self =
           Return () (self\<lparr>pc_epoch_num := pc_epoch_num self + 1,
                           triggered := triggered self @
                             filter (\<lambda>k. k mod period self = 0) [pc_epoch_num self + 1]\<rparr>)"
  using assms by (simp add: PeriodicCallback_trigger_epoch_def PeriodicCallback_trigger_def Let_def)

lemma trigger_epoch_times_Suc:
  "trigger_epoch_times (Suc m) self =
     (case trigger_epoch_times m self of
        Raise e self1 \<Rightarrow> Raise e self1
      | Return u self1 \<Rightarrow> PeriodicCallback_trigger_epoch self1)"
proof (induction m arbitrary: self)
  case 0
  show ?case by (simp split: outcome.splits)
next
  case (Suc m)
  show ?case
  proof (cases "PeriodicCallback_trigger_epoch self")
    case (Raise e s1)
    then show ?thesis by simp
  next
    case (Return u s1)
    have "trigger_epoch_times (Suc (Suc m)) self = trigger_epoch_times (Suc m) s1"
      using Return by simp
    also have "\<dots> = (case trigger_epoch_times m s1 of
                        Raise e self1 \<Rightarrow> Raise e self1
                      | Return u self1 \<Rightarrow> PeriodicCallback_trigger_epoch self1)"
      by (rule Suc.IH)
    also have "trigger_epoch_times m s1 = trigger_epoch_times (Suc m) self"
      using Return by simp
    finally show ?thesis .
  qed
qed

lemma trigger_epoch_times_init:
  assumes "P \<noteq> 0"
  shows "trigger_epoch_times M (PeriodicCallback_init P) =
           Return () \<lparr>period = P, pc_epoch_num = int M,
                      triggered = filter (\<lambda>k. k mod P = 0) [1..int M]\<rparr>"
proof (induction M)
  case 0
  show ?case by (simp add: PeriodicCallback_init_def)
next
  case (Suc M)
  have up: "[1..int M + 1] = [1..int M] @ [int M + 1]"
    by (rule upto_snoc) simp
  have s: "int (Suc M) = int M + 1" by simp
  show ?case
    unfolding trigger_epoch_times_Suc Suc.IH s up
    using assms by (simp add: trigger_epoch_once)
qed

text \<open>
  C2. A \<^verbatim>\<open>PeriodicCallback\<close> with a positive period \<open>P\<close>, its counter at 0: every call of
  \<^verbatim>\<open>trigger_epoch\<close> returns with the counter one higher, whether it fires or not; after
  \<open>M\<close> calls the counter is \<open>M\<close> and \<^verbatim>\<open>_trigger\<close> has been invoked on the calls
  \<open>P, 2P, ..., (M div P) P\<close> and no others, which is \<open>M div P\<close> times; with \<open>P = 1\<close> these are
  all the calls \<open>1, ..., M\<close>.
\<close>

theorem PeriodicCallback_fires_every_period:
  assumes "0 < P"
  shows "(\<forall>self. period self = P \<longrightarrow>
            (\<exists>self'. PeriodicCallback_trigger_epoch self = Return () self' \<and>
                      pc_epoch_num self' = pc_epoch_num self + 1)) \<and>
         trigger_epoch_times M (PeriodicCallback_init P) =
           Return () \<lparr>period = P, pc_epoch_num = int M,
                      triggered = map (\<lambda>j. j * P) [1..int M div P]\<rparr> \<and>
         length (map (\<lambda>j. j * P) [1..int M div P]) = M div nat P \<and>
         (P = 1 \<longrightarrow> map (\<lambda>j. j * P) [1..int M div P] = [1..int M])"
proof (intro conjI allI impI)
  fix self :: periodic_callback
  assume "period self = P"
  with assms have "period self \<noteq> 0" by simp
  from trigger_epoch_once [OF this]
  show "\<exists>self'. PeriodicCallback_trigger_epoch self = Return () self' \<and>
                 pc_epoch_num self' = pc_epoch_num self + 1"
    by simp
next
  have "P \<noteq> 0" using assms by simp
  from trigger_epoch_times_init [OF this, of M]
  show "trigger_epoch_times M (PeriodicCallback_init P) =
           Return () \<lparr>period = P, pc_epoch_num = int M,
                      triggered = map (\<lambda>j. j * P) [1..int M div P]\<rparr>"
    by (simp add: multiples_upto [OF assms])
next
  have "0 \<le> int M div P" using assms by (simp add: pos_imp_zdiv_nonneg_iff)
  moreover have "nat (int M div P) = M div nat P"
    using assms by (simp add: nat_div_distrib)
  ultimately show "length (map (\<lambda>j. j * P) [1..int M div P]) = M div nat P" by simp
next
  assume "P = 1"
  then show "map (\<lambda>j. j * P) [1..int M div P] = [1..int M]" by simp
qed

theorem PeriodicCallback_fires_every_period_witness:
  "(0::int) < 3 \<and>
   trigger_epoch_times 7 (PeriodicCallback_init 3) =
     Return () \<lparr>period = 3, pc_epoch_num = 7, triggered = [3, 6]\<rparr>"
proof -
  have h: "(0::int) < 3" by simp
  have u: "[1..(2::int)] = [1, 2]" by (simp add: upto.simps)
  from PeriodicCallback_fires_every_period [OF h, of 7]
  have "trigger_epoch_times 7 (PeriodicCallback_init 3) =
          Return () \<lparr>period = 3, pc_epoch_num = int 7,
                     triggered = map (\<lambda>j. j * 3) [1..int 7 div 3]\<rparr>"
    by blast
  then show ?thesis using h by (simp add: u)
qed

section \<open>Dispatch\<close>

subsection \<open>The three loops\<close>

lemma before_train_loop_append:
  "before_train_loop tf (xs @ ys) r =
     (case before_train_loop tf xs r of
        Raise e r1 \<Rightarrow> Raise e r1
      | Return u r1 \<Rightarrow> before_train_loop tf ys r1)"
  by (induction xs arbitrary: r) (simp_all split: outcome.splits)

lemma before_train_loop_Return:
  "before_train_loop tf xs r = Return u r' \<Longrightarrow>
     obj r' = obj r \<and> ticks r' = ticks r \<and>
     trace r' = trace r @ map (\<lambda>cb. Call_before_train (hook_id cb)) xs"
proof (induction xs arbitrary: r)
  case Nil
  then show ?case by simp
next
  case (Cons cb cbs)
  from Cons.prems obtain v w where
    h: "hook_before_train tf cb (world r) = Return v w"
    and l: "before_train_loop tf cbs
              (r\<lparr>world := w, trace := trace r @ [Call_before_train (hook_id cb)]\<rparr>) = Return u r'"
    by (auto split: outcome.splits)
  from Cons.IH [OF l] show ?case by simp
qed

lemma before_train_loop_Raise:
  "before_train_loop tf xs r = Raise e r' \<Longrightarrow>
     obj r' = obj r \<and>
     (\<exists>k<length xs. trace r' = trace r @ map (\<lambda>cb. Call_before_train (hook_id cb)) (take (Suc k) xs))"
proof (induction xs arbitrary: r)
  case Nil
  then show ?case by simp
next
  case (Cons cb cbs)
  show ?case
  proof (cases "hook_before_train tf cb (world r)")
    case (Raise e1 w)
    with Cons.prems have "r' = r\<lparr>world := w, trace := trace r @ [Call_before_train (hook_id cb)]\<rparr>"
      by simp
    then have "obj r' = obj r" and
      "trace r' = trace r @ map (\<lambda>cb. Call_before_train (hook_id cb)) (take (Suc 0) (cb # cbs))"
      by simp_all
    then show ?thesis by (metis length_Cons zero_less_Suc)
  next
    case (Return v w)
    with Cons.prems have l: "before_train_loop tf cbs
              (r\<lparr>world := w, trace := trace r @ [Call_before_train (hook_id cb)]\<rparr>) = Raise e r'"
      by simp
    from Cons.IH [OF l] obtain k where k: "k < length cbs" and o: "obj r' = obj r"
      and t: "trace r' = (trace r @ [Call_before_train (hook_id cb)]) @
                map (\<lambda>cb. Call_before_train (hook_id cb)) (take (Suc k) cbs)"
      by auto
    from t have "trace r' = trace r @
        map (\<lambda>cb. Call_before_train (hook_id cb)) (take (Suc (Suc k)) (cb # cbs))" by simp
    moreover from k have "Suc k < length (cb # cbs)" by simp
    ultimately show ?thesis using o by blast
  qed
qed

lemma trigger_step_loop_append:
  "trigger_step_loop inputs outputs cost (xs @ ys) r =
     (case trigger_step_loop inputs outputs cost xs r of
        Raise e r1 \<Rightarrow> Raise e r1
      | Return u r1 \<Rightarrow> trigger_step_loop inputs outputs cost ys r1)"
  by (induction xs arbitrary: r) (simp_all split: outcome.splits)

lemma trigger_step_loop_Return:
  "trigger_step_loop inputs outputs cost xs r = Return u r' \<Longrightarrow>
     obj r' = obj r \<and> ticks r' = ticks r \<and>
     trace r' = trace r @ map (\<lambda>cb. Call_trigger_step (hook_id cb) inputs outputs cost) xs"
proof (induction xs arbitrary: r)
  case Nil
  then show ?case by simp
next
  case (Cons cb cbs)
  from Cons.prems obtain v w where
    h: "hook_trigger_step cb inputs outputs cost (world r) = Return v w"
    and l: "trigger_step_loop inputs outputs cost cbs
              (r\<lparr>world := w, trace := trace r @ [Call_trigger_step (hook_id cb) inputs outputs cost]\<rparr>) = Return u r'"
    by (auto split: outcome.splits)
  from Cons.IH [OF l] show ?case by simp
qed

lemma trigger_step_loop_Raise:
  "trigger_step_loop inputs outputs cost xs r = Raise e r' \<Longrightarrow>
     obj r' = obj r \<and>
     (\<exists>k<length xs. trace r' = trace r @ map (\<lambda>cb. Call_trigger_step (hook_id cb) inputs outputs cost) (take (Suc k) xs))"
proof (induction xs arbitrary: r)
  case Nil
  then show ?case by simp
next
  case (Cons cb cbs)
  show ?case
  proof (cases "hook_trigger_step cb inputs outputs cost (world r)")
    case (Raise e1 w)
    with Cons.prems have "r' = r\<lparr>world := w, trace := trace r @ [Call_trigger_step (hook_id cb) inputs outputs cost]\<rparr>"
      by simp
    then have "obj r' = obj r" and
      "trace r' = trace r @ map (\<lambda>cb. Call_trigger_step (hook_id cb) inputs outputs cost) (take (Suc 0) (cb # cbs))"
      by simp_all
    then show ?thesis by (metis length_Cons zero_less_Suc)
  next
    case (Return v w)
    with Cons.prems have l: "trigger_step_loop inputs outputs cost cbs
              (r\<lparr>world := w, trace := trace r @ [Call_trigger_step (hook_id cb) inputs outputs cost]\<rparr>) = Raise e r'"
      by simp
    from Cons.IH [OF l] obtain k where k: "k < length cbs" and o: "obj r' = obj r"
      and t: "trace r' = (trace r @ [Call_trigger_step (hook_id cb) inputs outputs cost]) @
                map (\<lambda>cb. Call_trigger_step (hook_id cb) inputs outputs cost) (take (Suc k) cbs)"
      by auto
    from t have "trace r' = trace r @
        map (\<lambda>cb. Call_trigger_step (hook_id cb) inputs outputs cost) (take (Suc (Suc k)) (cb # cbs))" by simp
    moreover from k have "Suc k < length (cb # cbs)" by simp
    ultimately show ?thesis using o by blast
  qed
qed


lemma trigger_epoch_loop_append:
  "trigger_epoch_loop tf (xs @ ys) ts r =
     (case trigger_epoch_loop tf xs ts r of
        Raise e r1 \<Rightarrow> Raise e r1
      | Return ts1 r1 \<Rightarrow> trigger_epoch_loop tf ys ts1 r1)"
  by (induction xs arbitrary: ts r) (simp_all add: Let_def split: outcome.splits)

lemma trigger_epoch_loop_Return:
  "trigger_epoch_loop tf xs ts r = Return ts' r' \<Longrightarrow>
     obj r' = obj r \<and> ticks r' = ticks r + 2 * length xs \<and>
     trace r' = trace r @ map (\<lambda>cb. Call_trigger_epoch (hook_id cb)) xs \<and>
     ts' = ts @ map (\<lambda>k. float_sub tf (time_time tf (ticks r + 2 * k + 1))
                               (time_time tf (ticks r + 2 * k)))
                  [0..<length xs]"
proof (induction xs arbitrary: ts r)
  case Nil
  then show ?case by simp
next
  case (Cons cb cbs)
  let ?r3 = "\<lambda>w. r\<lparr>ticks := ticks r + 1, world := w,
                   trace := trace r @ [Call_trigger_epoch (hook_id cb)],
                   ticks := ticks r + 1 + 1\<rparr>"
  let ?t = "float_sub tf (time_time tf (ticks r + 1)) (time_time tf (ticks r))"
  from Cons.prems obtain v w where
    h: "hook_trigger_epoch tf cb (world r) = Return v w"
    and l: "trigger_epoch_loop tf cbs (ts @ [?t]) (?r3 w) = Return ts' r'"
    by (auto simp add: Let_def split: outcome.splits)
  from Cons.IH [OF l] have
    o: "obj r' = obj r" and
    k: "ticks r' = ticks r + 1 + 1 + 2 * length cbs" and
    t: "trace r' = (trace r @ [Call_trigger_epoch (hook_id cb)]) @
                   map (\<lambda>cb. Call_trigger_epoch (hook_id cb)) cbs" and
    m: "ts' = (ts @ [?t]) @
              map (\<lambda>k. float_sub tf (time_time tf (ticks r + 1 + 1 + 2 * k + 1)) (time_time tf (ticks r + 1 + 1 + 2 * k))) [0..<length cbs]"
    by simp_all
  have up: "[0..<length (cb # cbs)] = 0 # map Suc [0..<length cbs]"
    by (simp add: upt_conv_Cons map_Suc_upt del: upt_Suc)
  have m': "map (\<lambda>k. float_sub tf (time_time tf (ticks r + 2 * k + 1)) (time_time tf (ticks r + 2 * k)))
              [0..<length (cb # cbs)] =
            ?t # map (\<lambda>k. float_sub tf (time_time tf (ticks r + 1 + 1 + 2 * k + 1)) (time_time tf (ticks r + 1 + 1 + 2 * k))) [0..<length cbs]"
    unfolding up by (simp add: comp_def add.commute add.left_commute del: upt_Suc)
  have "ts' = ts @ map (\<lambda>k. float_sub tf (time_time tf (ticks r + 2 * k + 1)) (time_time tf (ticks r + 2 * k)))
                     [0..<length (cb # cbs)]"
    by (simp only: m m' append_assoc append_Cons append_Nil)
  moreover have "ticks r' = ticks r + 2 * length (cb # cbs)" using k by simp
  moreover have "trace r' = trace r @ map (\<lambda>cb. Call_trigger_epoch (hook_id cb)) (cb # cbs)"
    using t by simp
  ultimately show ?case using o by blast
qed

lemma trigger_epoch_loop_Raise:
  "trigger_epoch_loop tf xs ts r = Raise e r' \<Longrightarrow>
     obj r' = obj r \<and>
     (\<exists>k<length xs. trace r' = trace r @ map (\<lambda>cb. Call_trigger_epoch (hook_id cb)) (take (Suc k) xs))"
proof (induction xs arbitrary: ts r)
  case Nil
  then show ?case by simp
next
  case (Cons cb cbs)
  show ?case
  proof (cases "hook_trigger_epoch tf cb (world r)")
    case (Raise e1 w)
    with Cons.prems have "r' = r\<lparr>ticks := ticks r + 1, world := w,
                                  trace := trace r @ [Call_trigger_epoch (hook_id cb)]\<rparr>"
      by (simp add: Let_def)
    then have "obj r' = obj r" and
      "trace r' = trace r @ map (\<lambda>cb. Call_trigger_epoch (hook_id cb)) (take (Suc 0) (cb # cbs))"
      by simp_all
    then show ?thesis by (metis length_Cons zero_less_Suc)
  next
    case (Return v w)
    let ?r3 = "r\<lparr>ticks := ticks r + 1, world := w,
                 trace := trace r @ [Call_trigger_epoch (hook_id cb)],
                 ticks := ticks r + 1 + 1\<rparr>"
    from Return Cons.prems have l: "trigger_epoch_loop tf cbs
        (ts @ [float_sub tf (time_time tf (ticks r + 1)) (time_time tf (ticks r))]) ?r3 = Raise e r'"
      by (simp add: Let_def)
    from Cons.IH [OF l] obtain k where k: "k < length cbs" and o: "obj r' = obj r"
      and t: "trace r' = (trace r @ [Call_trigger_epoch (hook_id cb)]) @
                map (\<lambda>cb. Call_trigger_epoch (hook_id cb)) (take (Suc k) cbs)"
      by auto
    from t have "trace r' = trace r @
        map (\<lambda>cb. Call_trigger_epoch (hook_id cb)) (take (Suc (Suc k)) (cb # cbs))" by simp
    moreover from k have "Suc k < length (cb # cbs)" by simp
    ultimately show ?thesis using o by blast
  qed
qed

subsection \<open>Outcomes\<close>

lemma Return_if_not_raised:
  "raised out = None \<Longrightarrow> \<exists>x s. out = Return x s"
  by (cases out) simp_all

lemma Return_unit_if_not_raised:
  fixes out :: "(unit, 's) outcome"
  shows "raised out = None \<Longrightarrow> \<exists>s. out = Return () s"
  by (cases out) simp_all

lemma Raise_if_raised:
  "raised out = Some e \<Longrightarrow> \<exists>s. out = Raise e s"
  by (cases out) simp_all

subsection \<open>The example runs\<close>

text \<open>\<^verbatim>\<open>before_train\<close> on the fresh run of the three well-behaved hooks leads to the run used
  below as the one after \<^verbatim>\<open>before_train\<close>.\<close>

lemma before_train_reaches_trained_run:
  "Callbacks_before_train (example_tf rs) (fresh_run good_hooks) =
     Return () ((trained_run good_hooks)
        \<lparr>trace := [Call_before_train 0, Call_before_train 1, Call_before_train 2]\<rparr>)"
  by (simp add: Callbacks_before_train_def fresh_run_def trained_run_def good_hooks_def
      example_tf_def SummaryWriter_before_train_def SummaryWriter__before_train_def
      SummaryWriter_init_def upd_sw_def Callback_methods_def Let_def)

subsection \<open>A hook that raises\<close>

lemma before_train_raises_at:
  assumes cbs: "callbacks (obj r) = pre @ cb # post"
    and l: "before_train_loop tf pre r = Return () r1"
    and h: "hook_before_train tf cb (world r1) = Raise e w"
  shows "Callbacks_before_train tf r =
          Raise e (r1\<lparr>world := w,
                     trace := trace r @ map (\<lambda>cb. Call_before_train (hook_id cb)) (pre @ [cb])\<rparr>)"
proof -
  from before_train_loop_Return [OF l]
  have t: "trace r1 = trace r @ map (\<lambda>cb. Call_before_train (hook_id cb)) pre" by simp
  have "before_train_loop tf (pre @ cb # post) r =
          Raise e (r1\<lparr>world := w, trace := trace r1 @ [Call_before_train (hook_id cb)]\<rparr>)"
    by (simp add: before_train_loop_append l h)
  then show ?thesis
    by (simp add: Callbacks_before_train_def cbs t)
qed

lemma trigger_step_raises_at:
  assumes cbs: "callbacks (obj r) = pre @ cb # post"
    and l: "trigger_step_loop inputs outputs cost pre r = Return () r1"
    and h: "hook_trigger_step cb inputs outputs cost (world r1) = Raise e w"
  shows "Callbacks_trigger_step inputs outputs cost r =
          Raise e (r1\<lparr>world := w,
                     trace := trace r @
                       map (\<lambda>cb. Call_trigger_step (hook_id cb) inputs outputs cost) (pre @ [cb])\<rparr>)"
proof -
  from trigger_step_loop_Return [OF l]
  have t: "trace r1 = trace r @
             map (\<lambda>cb. Call_trigger_step (hook_id cb) inputs outputs cost) pre" by simp
  have "trigger_step_loop inputs outputs cost (pre @ cb # post) r =
          Raise e (r1\<lparr>world := w,
                     trace := trace r1 @ [Call_trigger_step (hook_id cb) inputs outputs cost]\<rparr>)"
    by (simp add: trigger_step_loop_append l h)
  then show ?thesis
    by (simp add: Callbacks_trigger_step_def cbs t)
qed

lemma trigger_epoch_raises_at:
  assumes cbs: "callbacks (obj r) = pre @ cb # post"
    and l: "trigger_epoch_loop tf pre [] (r\<lparr>ticks := ticks r + 1\<rparr>) = Return ts r1"
    and h: "hook_trigger_epoch tf cb (world r1) = Raise e w"
  shows "Callbacks_trigger_epoch tf r =
          Raise e (r1\<lparr>ticks := ticks r1 + 1, world := w,
                     trace := trace r @ map (\<lambda>cb. Call_trigger_epoch (hook_id cb)) (pre @ [cb])\<rparr>)"
proof -
  from trigger_epoch_loop_Return [OF l]
  have t: "trace r1 = trace r @ map (\<lambda>cb. Call_trigger_epoch (hook_id cb)) pre" by simp
  have "trigger_epoch_loop tf (pre @ cb # post) [] (r\<lparr>ticks := ticks r + 1\<rparr>) =
          Raise e (r1\<lparr>ticks := ticks r1 + 1, world := w,
                     trace := trace r1 @ [Call_trigger_epoch (hook_id cb)]\<rparr>)"
    by (simp only: trigger_epoch_loop_append l outcome.case) (simp add: h Let_def)
  then show ?thesis
    by (simp add: Callbacks_trigger_epoch_def cbs t Let_def)
qed

text \<open>
  C6. In each of \<^verbatim>\<open>before_train\<close>, \<^verbatim>\<open>trigger_step\<close> and \<^verbatim>\<open>trigger_epoch\<close>: let the list of
  hooks be \<open>pre @ cb # post\<close>, let the hooks of \<open>pre\<close> have returned, leaving the run
  \<open>r1\<close>, and let the method of \<open>cb\<close> raise \<open>e\<close> there. Then the call of the aggregator
  raises this same \<open>e\<close>; the methods called are those of \<open>pre\<close> and of \<open>cb\<close>, once each and
  in this order, and none of \<open>post\<close>; the world is the one \<open>cb\<close> left; nothing is retried,
  and neither the writer is looked up, nor flushed, nor a line logged.
\<close>

theorem Callbacks_dispatch_stops_at_raising_hook:
  assumes cbs: "callbacks (obj r) = pre @ cb # post"
  shows
    "(\<forall>r1 e w. before_train_loop tf pre r = Return () r1 \<longrightarrow>
        hook_before_train tf cb (world r1) = Raise e w \<longrightarrow>
        Callbacks_before_train tf r =
          Raise e (r1\<lparr>world := w,
                     trace := trace r @ map (\<lambda>cb. Call_before_train (hook_id cb)) (pre @ [cb])\<rparr>)) \<and>
     (\<forall>r1 e w. trigger_step_loop inputs outputs cost pre r = Return () r1 \<longrightarrow>
        hook_trigger_step cb inputs outputs cost (world r1) = Raise e w \<longrightarrow>
        Callbacks_trigger_step inputs outputs cost r =
          Raise e (r1\<lparr>world := w,
                     trace := trace r @
                       map (\<lambda>cb. Call_trigger_step (hook_id cb) inputs outputs cost) (pre @ [cb])\<rparr>)) \<and>
     (\<forall>ts r1 e w. trigger_epoch_loop tf pre [] (r\<lparr>ticks := ticks r + 1\<rparr>) = Return ts r1 \<longrightarrow>
        hook_trigger_epoch tf cb (world r1) = Raise e w \<longrightarrow>
        Callbacks_trigger_epoch tf r =
          Raise e (r1\<lparr>ticks := ticks r1 + 1, world := w,
                     trace := trace r @ map (\<lambda>cb. Call_trigger_epoch (hook_id cb)) (pre @ [cb])\<rparr>))"
proof (intro conjI allI impI)
  fix r1 e w
  assume "before_train_loop tf pre r = Return () r1"
    and "hook_before_train tf cb (world r1) = Raise e w"
  with cbs show "Callbacks_before_train tf r =
          Raise e (r1\<lparr>world := w,
                     trace := trace r @ map (\<lambda>cb. Call_before_train (hook_id cb)) (pre @ [cb])\<rparr>)"
    by (rule before_train_raises_at)
next
  fix r1 e w
  assume "trigger_step_loop inputs outputs cost pre r = Return () r1"
    and "hook_trigger_step cb inputs outputs cost (world r1) = Raise e w"
  with cbs show "Callbacks_trigger_step inputs outputs cost r =
          Raise e (r1\<lparr>world := w,
                     trace := trace r @
                       map (\<lambda>cb. Call_trigger_step (hook_id cb) inputs outputs cost) (pre @ [cb])\<rparr>)"
    by (rule trigger_step_raises_at)
next
  fix ts r1 e w
  assume "trigger_epoch_loop tf pre [] (r\<lparr>ticks := ticks r + 1\<rparr>) = Return ts r1"
    and "hook_trigger_epoch tf cb (world r1) = Raise e w"
  with cbs show "Callbacks_trigger_epoch tf r =
          Raise e (r1\<lparr>ticks := ticks r1 + 1, world := w,
                     trace := trace r @ map (\<lambda>cb. Call_trigger_epoch (hook_id cb)) (pre @ [cb])\<rparr>)"
    by (rule trigger_epoch_raises_at)
qed

theorem Callbacks_dispatch_stops_at_raising_hook_witness:
  "callbacks (obj (trained_run bad_hooks)) =
     [SummaryWriter 0] @ Instance ''Bad'' 1 raising_methods #
       [Instance ''Callback'' 2 Callback_methods] \<and>
   raised (Callbacks_before_train (example_tf [0]) (trained_run bad_hooks)) =
     Some (Exception ''boom'') \<and>
   trace (state_of (Callbacks_before_train (example_tf [0]) (trained_run bad_hooks))) =
     [Call_before_train 0, Call_before_train 1] \<and>
   raised (Callbacks_trigger_step 7 8 9 (trained_run bad_hooks)) = Some (Exception ''boom'') \<and>
   trace (state_of (Callbacks_trigger_step 7 8 9 (trained_run bad_hooks))) =
     [Call_trigger_step 0 7 8 9, Call_trigger_step 1 7 8 9] \<and>
   raised (Callbacks_trigger_epoch (example_tf [0]) (trained_run bad_hooks)) =
     Some (Exception ''boom'') \<and>
   trace (state_of (Callbacks_trigger_epoch (example_tf [0]) (trained_run bad_hooks))) =
     [Call_trigger_epoch 0, Call_trigger_epoch 1]"
proof -
  let ?r = "trained_run bad_hooks"
  let ?tf = "example_tf [0]"
  let ?cb = "Instance ''Bad'' 1 raising_methods :: world hook"
  have h: "callbacks (obj ?r) =
     [SummaryWriter 0] @ ?cb # [Instance ''Callback'' 2 Callback_methods]"
    by (simp add: trained_run_def bad_hooks_def)
  have tr: "trace ?r = []" by (simp add: trained_run_def)
  note c = Callbacks_dispatch_stops_at_raising_hook [OF h, of ?tf 7 8 9]
  have "raised (before_train_loop ?tf [SummaryWriter 0] ?r) = None"
    by (simp add: trained_run_def example_tf_def SummaryWriter_before_train_def
        SummaryWriter__before_train_def SummaryWriter_init_def upd_sw_def Let_def)
  then obtain r1 where l1: "before_train_loop ?tf [SummaryWriter 0] ?r = Return () r1"
    using Return_unit_if_not_raised by blast
  have h1: "hook_before_train ?tf ?cb (world r1) = Raise (Exception ''boom'') (world r1)"
    by (simp add: raising_methods_def)
  from c l1 h1 have b: "Callbacks_before_train ?tf ?r =
      Raise (Exception ''boom'') (r1\<lparr>world := world r1,
         trace := trace ?r @ map (\<lambda>cb. Call_before_train (hook_id cb)) ([SummaryWriter 0] @ [?cb])\<rparr>)"
    by blast
  have "raised (trigger_step_loop 7 8 9 [SummaryWriter 0] ?r) = None"
    by (simp add: SummaryWriter_trigger_step_def)
  then obtain r2 where l2: "trigger_step_loop 7 8 9 [SummaryWriter 0] ?r = Return () r2"
    using Return_unit_if_not_raised by blast
  have h2: "hook_trigger_step ?cb 7 8 9 (world r2) = Raise (Exception ''boom'') (world r2)"
    by (simp add: raising_methods_def)
  from c l2 h2 have s: "Callbacks_trigger_step 7 8 9 ?r =
      Raise (Exception ''boom'') (r2\<lparr>world := world r2,
         trace := trace ?r @
           map (\<lambda>cb. Call_trigger_step (hook_id cb) 7 8 9) ([SummaryWriter 0] @ [?cb])\<rparr>)"
    by blast
  have "raised (trigger_epoch_loop ?tf [SummaryWriter 0] [] (?r\<lparr>ticks := ticks ?r + 1\<rparr>)) = None"
    by (simp add: trained_run_def SummaryWriter_trigger_epoch_def Let_def)
  then obtain ts r3 where
    l3: "trigger_epoch_loop ?tf [SummaryWriter 0] [] (?r\<lparr>ticks := ticks ?r + 1\<rparr>) = Return ts r3"
    using Return_if_not_raised by blast
  have h3: "hook_trigger_epoch ?tf ?cb (world r3) = Raise (Exception ''boom'') (world r3)"
    by (simp add: raising_methods_def)
  from c l3 h3 have e: "Callbacks_trigger_epoch ?tf ?r =
      Raise (Exception ''boom'') (r3\<lparr>ticks := ticks r3 + 1, world := world r3,
         trace := trace ?r @ map (\<lambda>cb. Call_trigger_epoch (hook_id cb)) ([SummaryWriter 0] @ [?cb])\<rparr>)"
    by blast
  show ?thesis
    unfolding b s e using h by (simp add: tr)
qed

subsection \<open>trigger_step\<close>

lemma trigger_step_loop_total:
  "(\<forall>cb\<in>set xs. \<forall>w. raised (hook_trigger_step cb inputs outputs cost w) = None) \<Longrightarrow>
   raised (trigger_step_loop inputs outputs cost xs r) = None"
proof (induction xs arbitrary: r)
  case Nil
  show ?case by simp
next
  case (Cons cb cbs)
  from Cons.prems have "raised (hook_trigger_step cb inputs outputs cost (world r)) = None"
    by simp
  then obtain w where h: "hook_trigger_step cb inputs outputs cost (world r) = Return () w"
    using Return_unit_if_not_raised by blast
  from Cons.prems have "\<forall>cb\<in>set cbs. \<forall>w. raised (hook_trigger_step cb inputs outputs cost w) = None"
    by simp
  from Cons.IH [OF this] show ?case by (simp add: h)
qed

lemma trigger_step_returns:
  assumes l: "trigger_step_loop inputs outputs cost (callbacks (obj r)) r = Return () r1"
  shows "Callbacks_trigger_step inputs outputs cost r = Return () r1"
    and "trace r1 = trace r @
           map (\<lambda>cb. Call_trigger_step (hook_id cb) inputs outputs cost) (callbacks (obj r))"
  using l trigger_step_loop_Return [OF l] by (simp_all add: Callbacks_trigger_step_def)

text \<open>
  C7, amended. A call of \<^verbatim>\<open>trigger_step(inputs, outputs, cost)\<close> in which every hook's
  \<^verbatim>\<open>trigger_step\<close> returns, each in the world the one before it left, returns, and it has
  called \<^verbatim>\<open>trigger_step\<close> of every hook of the list exactly once, in list order, with the
  same three values (first and third conjunct; the last: it returns when no hook can
  raise). When the hooks of \<open>pre\<close> return and the next hook \<open>cb\<close> raises \<open>e\<close>, the call
  raises this \<open>e\<close> and has called, once each and in list order with those values, the hooks
  of \<open>pre\<close> and \<open>cb\<close> only, none after it (second conjunct; the fourth: a call that raises
  has called a non-empty prefix of the list).
\<close>

theorem Callbacks_trigger_step_calls_hooks_in_order:
  "(\<forall>r1. trigger_step_loop inputs outputs cost (callbacks (obj r)) r = Return () r1 \<longrightarrow>
      Callbacks_trigger_step inputs outputs cost r = Return () r1 \<and>
      trace r1 = trace r @
        map (\<lambda>cb. Call_trigger_step (hook_id cb) inputs outputs cost) (callbacks (obj r))) \<and>
   (\<forall>pre cb post r1 e w. callbacks (obj r) = pre @ cb # post \<longrightarrow>
      trigger_step_loop inputs outputs cost pre r = Return () r1 \<longrightarrow>
      hook_trigger_step cb inputs outputs cost (world r1) = Raise e w \<longrightarrow>
      Callbacks_trigger_step inputs outputs cost r =
        Raise e (r1\<lparr>world := w,
                   trace := trace r @
                     map (\<lambda>cb. Call_trigger_step (hook_id cb) inputs outputs cost) (pre @ [cb])\<rparr>)) \<and>
   (\<forall>r'. Callbacks_trigger_step inputs outputs cost r = Return () r' \<longrightarrow>
      trace r' = trace r @
        map (\<lambda>cb. Call_trigger_step (hook_id cb) inputs outputs cost) (callbacks (obj r))) \<and>
   (\<forall>e r'. Callbacks_trigger_step inputs outputs cost r = Raise e r' \<longrightarrow>
      (\<exists>k<length (callbacks (obj r)). trace r' = trace r @
        map (\<lambda>cb. Call_trigger_step (hook_id cb) inputs outputs cost)
          (take (Suc k) (callbacks (obj r))))) \<and>
   ((\<forall>cb\<in>set (callbacks (obj r)). \<forall>w.
        raised (hook_trigger_step cb inputs outputs cost w) = None) \<longrightarrow>
      raised (Callbacks_trigger_step inputs outputs cost r) = None)"
proof (intro conjI allI impI)
  fix r1
  assume l: "trigger_step_loop inputs outputs cost (callbacks (obj r)) r = Return () r1"
  show "Callbacks_trigger_step inputs outputs cost r = Return () r1"
    by (rule trigger_step_returns(1) [OF l])
  show "trace r1 = trace r @
        map (\<lambda>cb. Call_trigger_step (hook_id cb) inputs outputs cost) (callbacks (obj r))"
    by (rule trigger_step_returns(2) [OF l])
next
  fix pre cb post r1 e w
  assume "callbacks (obj r) = pre @ cb # post"
    and "trigger_step_loop inputs outputs cost pre r = Return () r1"
    and "hook_trigger_step cb inputs outputs cost (world r1) = Raise e w"
  then show "Callbacks_trigger_step inputs outputs cost r =
        Raise e (r1\<lparr>world := w,
                   trace := trace r @
                     map (\<lambda>cb. Call_trigger_step (hook_id cb) inputs outputs cost) (pre @ [cb])\<rparr>)"
    by (rule trigger_step_raises_at)
next
  fix r' assume "Callbacks_trigger_step inputs outputs cost r = Return () r'"
  then have "trigger_step_loop inputs outputs cost (callbacks (obj r)) r = Return () r'"
    by (simp add: Callbacks_trigger_step_def)
  from trigger_step_loop_Return [OF this]
  show "trace r' = trace r @
        map (\<lambda>cb. Call_trigger_step (hook_id cb) inputs outputs cost) (callbacks (obj r))"
    by simp
next
  fix e r' assume "Callbacks_trigger_step inputs outputs cost r = Raise e r'"
  then have "trigger_step_loop inputs outputs cost (callbacks (obj r)) r = Raise e r'"
    by (simp add: Callbacks_trigger_step_def)
  from trigger_step_loop_Raise [OF this]
  show "\<exists>k<length (callbacks (obj r)). trace r' = trace r @
        map (\<lambda>cb. Call_trigger_step (hook_id cb) inputs outputs cost)
          (take (Suc k) (callbacks (obj r)))"
    by simp
next
  assume "\<forall>cb\<in>set (callbacks (obj r)). \<forall>w.
        raised (hook_trigger_step cb inputs outputs cost w) = None"
  from trigger_step_loop_total [OF this]
  show "raised (Callbacks_trigger_step inputs outputs cost r) = None"
    by (simp add: Callbacks_trigger_step_def)
qed

text \<open>As stated, for every call, C7 fails: the second of three hooks raises and the third
  is never called.\<close>

theorem Callbacks_trigger_step_raising_hook_counterexample:
  "map hook_id (callbacks (obj (trained_run bad_hooks))) = [0, 1, 2] \<and>
   raised (Callbacks_trigger_step 7 8 9 (trained_run bad_hooks)) = Some (Exception ''boom'') \<and>
   trace (state_of (Callbacks_trigger_step 7 8 9 (trained_run bad_hooks))) =
     [Call_trigger_step 0 7 8 9, Call_trigger_step 1 7 8 9]"
  by (simp add: Callbacks_trigger_step_def trained_run_def bad_hooks_def
      SummaryWriter_trigger_step_def raising_methods_def)

theorem Callbacks_trigger_step_calls_hooks_in_order_witness:
  "raised (Callbacks_trigger_step 7 8 9 (trained_run good_hooks)) = None \<and>
   trace (state_of (Callbacks_trigger_step 7 8 9 (trained_run good_hooks))) =
     [Call_trigger_step 0 7 8 9, Call_trigger_step 1 7 8 9, Call_trigger_step 2 7 8 9] \<and>
   callbacks (obj (trained_run bad_hooks)) =
     [SummaryWriter 0] @ Instance ''Bad'' 1 raising_methods #
       [Instance ''Callback'' 2 Callback_methods] \<and>
   raised (Callbacks_trigger_step 7 8 9 (trained_run bad_hooks)) = Some (Exception ''boom'') \<and>
   trace (state_of (Callbacks_trigger_step 7 8 9 (trained_run bad_hooks))) =
     [Call_trigger_step 0 7 8 9, Call_trigger_step 1 7 8 9]"
proof -
  let ?g = "trained_run good_hooks"
  let ?b = "trained_run bad_hooks"
  let ?cb = "Instance ''Bad'' 1 raising_methods :: world hook"
  note g = Callbacks_trigger_step_calls_hooks_in_order [of 7 8 9 ?g]
  note b = Callbacks_trigger_step_calls_hooks_in_order [of 7 8 9 ?b]
  have "raised (trigger_step_loop 7 8 9 (callbacks (obj ?g)) ?g) = None"
    by (simp add: trained_run_def good_hooks_def SummaryWriter_trigger_step_def
        Callback_methods_def)
  then obtain r1 where l: "trigger_step_loop 7 8 9 (callbacks (obj ?g)) ?g = Return () r1"
    using Return_unit_if_not_raised by blast
  from g l have ret: "Callbacks_trigger_step 7 8 9 ?g = Return () r1"
    and tr: "trace r1 = trace ?g @
        map (\<lambda>cb. Call_trigger_step (hook_id cb) 7 8 9) (callbacks (obj ?g))"
    by blast+
  have n: "raised (Callbacks_trigger_step 7 8 9 ?g) = None" unfolding ret by simp
  have t: "trace (state_of (Callbacks_trigger_step 7 8 9 ?g)) =
     [Call_trigger_step 0 7 8 9, Call_trigger_step 1 7 8 9, Call_trigger_step 2 7 8 9]"
    unfolding ret using tr by (simp add: trained_run_def good_hooks_def)
  have h: "callbacks (obj ?b) =
     [SummaryWriter 0] @ ?cb # [Instance ''Callback'' 2 Callback_methods]"
    by (simp add: trained_run_def bad_hooks_def)
  have "raised (trigger_step_loop 7 8 9 [SummaryWriter 0] ?b) = None"
    by (simp add: SummaryWriter_trigger_step_def)
  then obtain r2 where l2: "trigger_step_loop 7 8 9 [SummaryWriter 0] ?b = Return () r2"
    using Return_unit_if_not_raised by blast
  have h2: "hook_trigger_step ?cb 7 8 9 (world r2) = Raise (Exception ''boom'') (world r2)"
    by (simp add: raising_methods_def)
  from b h l2 h2 have s: "Callbacks_trigger_step 7 8 9 ?b =
      Raise (Exception ''boom'') (r2\<lparr>world := world r2,
         trace := trace ?b @
           map (\<lambda>cb. Call_trigger_step (hook_id cb) 7 8 9) ([SummaryWriter 0] @ [?cb])\<rparr>)"
    by blast
  have e: "raised (Callbacks_trigger_step 7 8 9 ?b) = Some (Exception ''boom'')"
    unfolding s by simp
  have p: "trace (state_of (Callbacks_trigger_step 7 8 9 ?b)) =
     [Call_trigger_step 0 7 8 9, Call_trigger_step 1 7 8 9]"
    unfolding s by (simp add: trained_run_def)
  from n t h e p show ?thesis by blast
qed

subsection \<open>trigger_epoch: the four ways it ends\<close>

lemma heavy_msgs_zip:
  "idx + length ts \<le> length cbs \<Longrightarrow>
   heavy_msgs tf cbs tot idx ts msgs =
     Inr (msgs @ map (\<lambda>(cb, t). (type_name cb, t))
                   (filter (\<lambda>(cb, t). float_0_3 < float_div tf t tot \<and> 1 < t) (zip (drop idx cbs) ts)))"
proof (induction ts arbitrary: idx msgs)
  case Nil
  show ?case by simp
next
  case (Cons t ts)
  from Cons.prems have i: "idx < length cbs" and n: "Suc idx + length ts \<le> length cbs"
    by simp_all
  have d: "drop idx cbs = cbs ! idx # drop (Suc idx) cbs"
    using i by (simp add: Cons_nth_drop_Suc)
  show ?case
    by (simp add: Cons.IH [OF n] d i)
qed

lemma trigger_epoch_loop_times:
  assumes l: "trigger_epoch_loop tf (callbacks (obj r)) [] (r\<lparr>ticks := ticks r + 1\<rparr>) = Return ts r1"
  shows "ts = map (hook_time tf r) [0..<length (callbacks (obj r))]"
    and "ticks r1 = ticks r + 2 * length (callbacks (obj r)) + 1"
    and "obj r1 = obj r"
    and "trace r1 = trace r @ map (\<lambda>cb. Call_trigger_epoch (hook_id cb)) (callbacks (obj r))"
proof -
  from trigger_epoch_loop_Return [OF l] have
    a: "obj r1 = obj r" and b: "ticks r1 = ticks r + 1 + 2 * length (callbacks (obj r))"
    and c: "trace r1 = trace r @ map (\<lambda>cb. Call_trigger_epoch (hook_id cb)) (callbacks (obj r))"
    and d: "ts = map (\<lambda>k. float_sub tf (time_time tf (ticks r + 1 + 2 * k + 1)) (time_time tf (ticks r + 1 + 2 * k)))
                  [0..<length (callbacks (obj r))]"
    by simp_all
  have "(\<lambda>k. float_sub tf (time_time tf (ticks r + 1 + 2 * k + 1)) (time_time tf (ticks r + 1 + 2 * k))) =
        hook_time tf r"
    by (rule ext) (simp add: hook_time_def add.commute add.left_commute)
  with d show "ts = map (hook_time tf r) [0..<length (callbacks (obj r))]" by simp
  from b show "ticks r1 = ticks r + 2 * length (callbacks (obj r)) + 1" by simp
  from a show "obj r1 = obj r" .
  from c show "trace r1 = trace r @ map (\<lambda>cb. Call_trigger_epoch (hook_id cb)) (callbacks (obj r))" .
qed

lemma trigger_epoch_completes:
  assumes l: "trigger_epoch_loop tf (callbacks (obj r)) [] (r\<lparr>ticks := ticks r + 1\<rparr>) = Return ts r1"
    and w: "writer (obj r) = Some wr"
    and f: "flush tf wr (world r1) = Return u w"
  shows "Callbacks_trigger_epoch tf r =
     Return () (r1\<lparr>world := w, ticks := ticks r1 + 1,
        trace := trace r @ map (\<lambda>cb. Call_trigger_epoch (hook_id cb)) (callbacks (obj r)) @
          Call_flush wr #
          (if total_time tf r < 3 then []
           else [Log_info (total_time tf r)
                  (map (\<lambda>(cb, t). (type_name cb, t))
                     (filter (\<lambda>(cb, t). float_0_3 < float_div tf t (total_time tf r) \<and> 1 < t)
                        (zip (callbacks (obj r))
                           (map (hook_time tf r) [0..<length (callbacks (obj r))]))))])\<rparr>)"
proof -
  note t = trigger_epoch_loop_times [OF l]
  have tot: "float_sub tf (time_time tf (ticks r1)) (time_time tf (ticks r)) = total_time tf r"
    by (simp add: total_time_def t(2))
  have hm: "heavy_msgs tf (callbacks (obj r)) (total_time tf r) 0 ts [] =
      Inr (map (\<lambda>(cb, t). (type_name cb, t))
             (filter (\<lambda>(cb, t). float_0_3 < float_div tf t (total_time tf r) \<and> 1 < t)
                (zip (callbacks (obj r))
                   (map (hook_time tf r) [0..<length (callbacks (obj r))]))))"
    using heavy_msgs_zip [of 0 ts "callbacks (obj r)" tf "total_time tf r" "[]"]
    by (simp add: t(1))
  have l': "trigger_epoch_loop tf (callbacks (obj r)) [] (r\<lparr>ticks := Suc (ticks r)\<rparr>) = Return ts r1"
    using l by simp
  show ?thesis
    by (simp add: Callbacks_trigger_epoch_def Let_def l' w f t(3) t(4) tot hm)
qed

lemma trigger_epoch_cases:
  fixes tf :: "'z world_scheme env" and r :: "'z run"
  obtains
    (hook_raises) e r1 k where
      "Callbacks_trigger_epoch tf r = Raise e r1"
      "k < length (callbacks (obj r))"
      "trace r1 = trace r @
         map (\<lambda>cb. Call_trigger_epoch (hook_id cb)) (take (Suc k) (callbacks (obj r)))"
  | (no_writer) ts r1 where
      "trigger_epoch_loop tf (callbacks (obj r)) [] (r\<lparr>ticks := ticks r + 1\<rparr>) = Return ts r1"
      "writer (obj r) = None"
      "Callbacks_trigger_epoch tf r = Raise (AttributeError ''Callbacks'' ''writer'') r1"
      "trace r1 = trace r @ map (\<lambda>cb. Call_trigger_epoch (hook_id cb)) (callbacks (obj r))"
  | (flush_raises) wr e r1 where
      "writer (obj r) = Some wr"
      "Callbacks_trigger_epoch tf r = Raise e r1"
      "trace r1 = trace r @ map (\<lambda>cb. Call_trigger_epoch (hook_id cb)) (callbacks (obj r)) @
         [Call_flush wr]"
  | (completes) wr r1 where
      "writer (obj r) = Some wr"
      "Callbacks_trigger_epoch tf r = Return () r1"
      "trace r1 = trace r @ map (\<lambda>cb. Call_trigger_epoch (hook_id cb)) (callbacks (obj r)) @
          Call_flush wr #
          (if total_time tf r < 3 then []
           else [Log_info (total_time tf r)
                  (map (\<lambda>(cb, t). (type_name cb, t))
                     (filter (\<lambda>(cb, t). float_0_3 < float_div tf t (total_time tf r) \<and> 1 < t)
                        (zip (callbacks (obj r))
                           (map (hook_time tf r) [0..<length (callbacks (obj r))]))))])"
proof (cases "trigger_epoch_loop tf (callbacks (obj r)) [] (r\<lparr>ticks := ticks r + 1\<rparr>)")
  case (Raise e r1)
  then have l': "trigger_epoch_loop tf (callbacks (obj r)) [] (r\<lparr>ticks := Suc (ticks r)\<rparr>) = Raise e r1"
    by simp
  have res: "Callbacks_trigger_epoch tf r = Raise e r1"
    by (simp add: Callbacks_trigger_epoch_def Let_def l')
  from trigger_epoch_loop_Raise [OF Raise] obtain k where
    "k < length (callbacks (obj r))"
    "trace r1 = trace r @
         map (\<lambda>cb. Call_trigger_epoch (hook_id cb)) (take (Suc k) (callbacks (obj r)))"
    by auto
  with res show ?thesis by (rule hook_raises)
next
  case (Return ts r1)
  then have l': "trigger_epoch_loop tf (callbacks (obj r)) [] (r\<lparr>ticks := Suc (ticks r)\<rparr>) = Return ts r1"
    by simp
  note t = trigger_epoch_loop_times [OF Return]
  show ?thesis
  proof (cases "writer (obj r)")
    case None
    have "Callbacks_trigger_epoch tf r = Raise (AttributeError ''Callbacks'' ''writer'') r1"
      by (simp add: Callbacks_trigger_epoch_def Let_def l' t(3) None)
    with Return None show ?thesis using t(4) by (rule no_writer)
  next
    case (Some wr)
    show ?thesis
    proof (cases "flush tf wr (world r1)")
      case (Raise e w)
      have "Callbacks_trigger_epoch tf r =
              Raise e (r1\<lparr>world := w, trace := trace r1 @ [Call_flush wr]\<rparr>)"
        by (simp add: Callbacks_trigger_epoch_def Let_def l' t(3) Some Raise)
      moreover have "trace (r1\<lparr>world := w, trace := trace r1 @ [Call_flush wr]\<rparr>) =
          trace r @ map (\<lambda>cb. Call_trigger_epoch (hook_id cb)) (callbacks (obj r)) @
            [Call_flush wr]"
        by (simp add: t(4))
      ultimately show ?thesis using Some by (intro flush_raises)
    next
      case (Return u w)
      from trigger_epoch_completes [OF \<open>trigger_epoch_loop tf (callbacks (obj r)) []
          (r\<lparr>ticks := ticks r + 1\<rparr>) = Return ts r1\<close> Some Return]
      obtain r2 where res: "Callbacks_trigger_epoch tf r = Return () r2"
        and tr: "trace r2 = trace r @ map (\<lambda>cb. Call_trigger_epoch (hook_id cb)) (callbacks (obj r)) @
          Call_flush wr #
          (if total_time tf r < 3 then []
           else [Log_info (total_time tf r)
                  (map (\<lambda>(cb, t). (type_name cb, t))
                     (filter (\<lambda>(cb, t). float_0_3 < float_div tf t (total_time tf r) \<and> 1 < t)
                        (zip (callbacks (obj r))
                           (map (hook_time tf r) [0..<length (callbacks (obj r))]))))])"
        by simp
      from Some res tr show ?thesis by (rule completes)
    qed
  qed
qed

lemma trigger_epoch_flush_raises_at:
  assumes l: "trigger_epoch_loop tf (callbacks (obj r)) [] (r\<lparr>ticks := ticks r + 1\<rparr>) = Return ts r1"
    and w: "writer (obj r) = Some wr"
    and f: "flush tf wr (world r1) = Raise e w"
  shows "Callbacks_trigger_epoch tf r =
     Raise e (r1\<lparr>world := w,
        trace := trace r @ map (\<lambda>cb. Call_trigger_epoch (hook_id cb)) (callbacks (obj r)) @
          [Call_flush wr]\<rparr>)"
proof -
  note t = trigger_epoch_loop_times [OF l]
  have l': "trigger_epoch_loop tf (callbacks (obj r)) [] (r\<lparr>ticks := Suc (ticks r)\<rparr>) = Return ts r1"
    using l by simp
  show ?thesis
    by (simp add: Callbacks_trigger_epoch_def Let_def l' w f t(3) t(4))
qed

lemma trigger_epoch_no_writer_at:
  assumes l: "trigger_epoch_loop tf (callbacks (obj r)) [] (r\<lparr>ticks := ticks r + 1\<rparr>) = Return ts r1"
    and w: "writer (obj r) = None"
  shows "Callbacks_trigger_epoch tf r = Raise (AttributeError ''Callbacks'' ''writer'') r1"
    and "trace r1 = trace r @ map (\<lambda>cb. Call_trigger_epoch (hook_id cb)) (callbacks (obj r))"
proof -
  note t = trigger_epoch_loop_times [OF l]
  have l': "trigger_epoch_loop tf (callbacks (obj r)) [] (r\<lparr>ticks := Suc (ticks r)\<rparr>) = Return ts r1"
    using l by simp
  show "Callbacks_trigger_epoch tf r = Raise (AttributeError ''Callbacks'' ''writer'') r1"
    by (simp add: Callbacks_trigger_epoch_def Let_def l' t(3) w)
  show "trace r1 = trace r @ map (\<lambda>cb. Call_trigger_epoch (hook_id cb)) (callbacks (obj r))"
    by (rule t(4))
qed

lemma zip_index:
  "zip xs (map f [0..<length xs]) = map (\<lambda>k. (xs ! k, f k)) [0..<length xs]"
  by (rule nth_equalityI) simp_all

subsection \<open>The example runs of trigger_epoch\<close>

lemma clock_simps:
  "time_time (example_tf rs) = clock_of rs"
  "float_sub (example_tf rs) = (\<lambda>a b. a - b)"
  "float_div (example_tf rs) = (\<lambda>a b. a / b)"
  "time_time (failing_flush_tf rs) = clock_of rs"
  "float_sub (failing_flush_tf rs) = (\<lambda>a b. a - b)"
  "float_div (failing_flush_tf rs) = (\<lambda>a b. a / b)"
  by (simp_all add: example_tf_def failing_flush_tf_def)

lemma trained_run_simps:
  "ticks (trained_run cbs) = 0"
  "trace (trained_run cbs) = []"
  "callbacks (obj (trained_run cbs)) = cbs"
  "writer (obj (trained_run cbs)) = Some 200"
  by (simp_all add: trained_run_def)

lemma good_hooks_loop_returns:
  "raised (trigger_epoch_loop (example_tf rs) good_hooks []
     ((trained_run good_hooks)\<lparr>ticks := ticks (trained_run good_hooks) + 1\<rparr>)) = None"
  "raised (trigger_epoch_loop (failing_flush_tf rs) good_hooks []
     ((trained_run good_hooks)\<lparr>ticks := ticks (trained_run good_hooks) + 1\<rparr>)) = None"
  by (simp_all add: trained_run_def good_hooks_def Callback_methods_def
      SummaryWriter_trigger_epoch_def Let_def)

lemma example_times:
  "total_time (example_tf slow_readings) (trained_run good_hooks) = 4"
  "hook_time (example_tf slow_readings) (trained_run good_hooks) 0 = 1 / 2"
  "hook_time (example_tf slow_readings) (trained_run good_hooks) (Suc 0) = 3"
  "hook_time (example_tf slow_readings) (trained_run good_hooks) 2 = 1 / 2"
  "total_time (example_tf skewed_readings) (trained_run good_hooks) = 5 / 2"
  "hook_time (example_tf skewed_readings) (trained_run good_hooks) (Suc 0) = 2"
  "total_time (example_tf slow_flush_readings) (trained_run good_hooks) = 4"
  "hook_time (example_tf slow_flush_readings) (trained_run good_hooks) 0 = 1 / 4"
  "hook_time (example_tf slow_flush_readings) (trained_run good_hooks) (Suc 0) = 1 / 4"
  "hook_time (example_tf slow_flush_readings) (trained_run good_hooks) 2 = 1 / 4"
  "total_time (failing_flush_tf stalled_readings) (trained_run good_hooks) = 9 / 2"
  "hook_time (failing_flush_tf stalled_readings) (trained_run good_hooks) (Suc 0) = 2"
  by (simp_all add: total_time_def hook_time_def clock_simps trained_run_simps good_hooks_def
      clock_of_def slow_readings_def skewed_readings_def slow_flush_readings_def
      stalled_readings_def)

lemma example_outcomes:
  "Callbacks_trigger_epoch (failing_flush_tf rs) (trained_run good_hooks) =
     Raise (Exception ''disk'')
       ((trained_run good_hooks)
          \<lparr>ticks := 7,
           trace := [Call_trigger_epoch 0, Call_trigger_epoch 1, Call_trigger_epoch 2,
                     Call_flush 200]\<rparr>)"
  by (simp add: Callbacks_trigger_epoch_def trained_run_def good_hooks_def
      failing_flush_tf_def example_tf_def Callback_methods_def SummaryWriter_trigger_epoch_def
      Let_def)

subsection \<open>trigger_epoch: what is flushed and what is logged\<close>

lemma heavy_by_index:
  "map (\<lambda>(cb, t). (type_name cb, t))
     (filter (\<lambda>(cb, t). float_0_3 < float_div tf t T \<and> 1 < t)
        (zip cbs (map f [0..<length cbs]))) =
   map (\<lambda>k. (type_name (cbs ! k), f k))
     (filter (\<lambda>k. float_0_3 < float_div tf (f k) T \<and> 1 < f k) [0..<length cbs])"
  unfolding zip_index filter_map by (simp add: comp_def)

lemma trigger_epoch_logs_at:
  assumes l: "trigger_epoch_loop tf (callbacks (obj r)) [] (r\<lparr>ticks := ticks r + 1\<rparr>) = Return ts r1"
    and w: "writer (obj r) = Some wr"
    and f: "flush tf wr (world r1) = Return u w"
    and T: "3 \<le> total_time tf r"
  shows "Callbacks_trigger_epoch tf r =
     Return () (r1\<lparr>world := w, ticks := ticks r1 + 1,
        trace := trace r @ map (\<lambda>cb. Call_trigger_epoch (hook_id cb)) (callbacks (obj r)) @
          [Call_flush wr,
           Log_info (total_time tf r)
             (map (\<lambda>k. (type_name (callbacks (obj r) ! k), hook_time tf r k))
                (filter (\<lambda>k. float_0_3 < float_div tf (hook_time tf r k) (total_time tf r) \<and>
                              1 < hook_time tf r k)
                   [0..<length (callbacks (obj r))]))]\<rparr>)"
  using trigger_epoch_completes [OF l w f] T by (simp add: heavy_by_index)

text \<open>
  C8, amended. With a writer \<open>wr\<close> retained by \<^verbatim>\<open>before_train\<close>, a call of
  \<^verbatim>\<open>trigger_epoch\<close> ends in one of three ways.
  \<^item> The hooks of \<open>pre\<close> return and the next hook \<open>cb\<close> raises \<open>e\<close>: the call raises \<open>e\<close>,
    having called the hooks of \<open>pre\<close> and \<open>cb\<close> only; it does not flush at all.
  \<^item> Every hook returns and the flush raises \<open>e\<close>: the call raises \<open>e\<close>, having called every
    hook, in list order, and then the flush of \<open>wr\<close>, once.
  \<^item> Every hook and the flush return: the call returns, having called every hook, in list
    order, then flushed \<open>wr\<close>, once, and after that at most logged.
  So a call that returns has flushed exactly once, after the \<^verbatim>\<open>trigger_epoch\<close> of every
  hook, and in no call is the flush before or between hooks (the last two conjuncts).
\<close>

theorem Callbacks_trigger_epoch_flush_after_hooks:
  assumes w: "writer (obj r) = Some wr"
  shows
    "(\<forall>pre cb post ts r1 e w. callbacks (obj r) = pre @ cb # post \<longrightarrow>
        trigger_epoch_loop tf pre [] (r\<lparr>ticks := ticks r + 1\<rparr>) = Return ts r1 \<longrightarrow>
        hook_trigger_epoch tf cb (world r1) = Raise e w \<longrightarrow>
        Callbacks_trigger_epoch tf r =
          Raise e (r1\<lparr>ticks := ticks r1 + 1, world := w,
                     trace := trace r @ map (\<lambda>cb. Call_trigger_epoch (hook_id cb)) (pre @ [cb])\<rparr>)) \<and>
     (\<forall>ts r1 e w.
        trigger_epoch_loop tf (callbacks (obj r)) [] (r\<lparr>ticks := ticks r + 1\<rparr>) = Return ts r1 \<longrightarrow>
        flush tf wr (world r1) = Raise e w \<longrightarrow>
        Callbacks_trigger_epoch tf r =
          Raise e (r1\<lparr>world := w,
                     trace := trace r @
                       map (\<lambda>cb. Call_trigger_epoch (hook_id cb)) (callbacks (obj r)) @
                       [Call_flush wr]\<rparr>)) \<and>
     (\<forall>ts r1 u w.
        trigger_epoch_loop tf (callbacks (obj r)) [] (r\<lparr>ticks := ticks r + 1\<rparr>) = Return ts r1 \<longrightarrow>
        flush tf wr (world r1) = Return u w \<longrightarrow>
        (\<exists>r' log. Callbacks_trigger_epoch tf r = Return () r' \<and>
           trace r' = trace r @
             map (\<lambda>cb. Call_trigger_epoch (hook_id cb)) (callbacks (obj r)) @
             Call_flush wr # log \<and> (\<forall>ev\<in>set log. is_Log_info ev))) \<and>
     (\<forall>r'. Callbacks_trigger_epoch tf r = Return () r' \<longrightarrow>
        (\<exists>log. trace r' = trace r @
             map (\<lambda>cb. Call_trigger_epoch (hook_id cb)) (callbacks (obj r)) @
             Call_flush wr # log \<and> (\<forall>ev\<in>set log. is_Log_info ev))) \<and>
     (\<forall>e r'. Callbacks_trigger_epoch tf r = Raise e r' \<longrightarrow>
        (\<exists>k<length (callbacks (obj r)). trace r' = trace r @
             map (\<lambda>cb. Call_trigger_epoch (hook_id cb)) (take (Suc k) (callbacks (obj r)))) \<or>
        trace r' = trace r @
             map (\<lambda>cb. Call_trigger_epoch (hook_id cb)) (callbacks (obj r)) @ [Call_flush wr])"
proof (intro conjI)
  show "\<forall>pre cb post ts r1 e w. callbacks (obj r) = pre @ cb # post \<longrightarrow>
        trigger_epoch_loop tf pre [] (r\<lparr>ticks := ticks r + 1\<rparr>) = Return ts r1 \<longrightarrow>
        hook_trigger_epoch tf cb (world r1) = Raise e w \<longrightarrow>
        Callbacks_trigger_epoch tf r =
          Raise e (r1\<lparr>ticks := ticks r1 + 1, world := w,
                     trace := trace r @ map (\<lambda>cb. Call_trigger_epoch (hook_id cb)) (pre @ [cb])\<rparr>)"
    by (intro allI impI) (rule trigger_epoch_raises_at)
  show "\<forall>ts r1 e w.
        trigger_epoch_loop tf (callbacks (obj r)) [] (r\<lparr>ticks := ticks r + 1\<rparr>) = Return ts r1 \<longrightarrow>
        flush tf wr (world r1) = Raise e w \<longrightarrow>
        Callbacks_trigger_epoch tf r =
          Raise e (r1\<lparr>world := w,
                     trace := trace r @
                       map (\<lambda>cb. Call_trigger_epoch (hook_id cb)) (callbacks (obj r)) @
                       [Call_flush wr]\<rparr>)"
    using w by (intro allI impI) (rule trigger_epoch_flush_raises_at)
  show "\<forall>ts r1 u w.
        trigger_epoch_loop tf (callbacks (obj r)) [] (r\<lparr>ticks := ticks r + 1\<rparr>) = Return ts r1 \<longrightarrow>
        flush tf wr (world r1) = Return u w \<longrightarrow>
        (\<exists>r' log. Callbacks_trigger_epoch tf r = Return () r' \<and>
           trace r' = trace r @
             map (\<lambda>cb. Call_trigger_epoch (hook_id cb)) (callbacks (obj r)) @
             Call_flush wr # log \<and> (\<forall>ev\<in>set log. is_Log_info ev))"
  proof (intro allI impI)
    fix ts r1 u w'
    assume l: "trigger_epoch_loop tf (callbacks (obj r)) [] (r\<lparr>ticks := ticks r + 1\<rparr>) = Return ts r1"
      and f: "flush tf wr (world r1) = Return u w'"
    from trigger_epoch_completes [OF l w f] obtain r' log where
      res: "Callbacks_trigger_epoch tf r = Return () r'"
      and tr: "trace r' = trace r @
             map (\<lambda>cb. Call_trigger_epoch (hook_id cb)) (callbacks (obj r)) @
             Call_flush wr # log"
      and lg: "log = (if total_time tf r < 3 then []
           else [Log_info (total_time tf r)
                  (map (\<lambda>(cb, t). (type_name cb, t))
                     (filter (\<lambda>(cb, t). float_0_3 < float_div tf t (total_time tf r) \<and> 1 < t)
                        (zip (callbacks (obj r))
                           (map (hook_time tf r) [0..<length (callbacks (obj r))]))))])"
      by simp
    from lg have "\<forall>ev\<in>set log. is_Log_info ev" by simp
    with res tr show "\<exists>r' log. Callbacks_trigger_epoch tf r = Return () r' \<and>
           trace r' = trace r @
             map (\<lambda>cb. Call_trigger_epoch (hook_id cb)) (callbacks (obj r)) @
             Call_flush wr # log \<and> (\<forall>ev\<in>set log. is_Log_info ev)"
      by blast
  qed
  show "\<forall>r'. Callbacks_trigger_epoch tf r = Return () r' \<longrightarrow>
        (\<exists>log. trace r' = trace r @
             map (\<lambda>cb. Call_trigger_epoch (hook_id cb)) (callbacks (obj r)) @
             Call_flush wr # log \<and> (\<forall>ev\<in>set log. is_Log_info ev))"
  proof (cases tf r rule: trigger_epoch_cases)
    case (hook_raises e r1 k)
    then show ?thesis by simp
  next
    case (no_writer ts r1)
    with w show ?thesis by simp
  next
    case (flush_raises wr' e r1)
    then show ?thesis by simp
  next
    case (completes wr' r1)
    with w have wr: "wr' = wr" by simp
    show ?thesis
    proof (cases "total_time tf r < 3")
      case True
      with completes wr show ?thesis by auto
    next
      case False
      with completes wr show ?thesis by auto
    qed
  qed
  show "\<forall>e r'. Callbacks_trigger_epoch tf r = Raise e r' \<longrightarrow>
        (\<exists>k<length (callbacks (obj r)). trace r' = trace r @
             map (\<lambda>cb. Call_trigger_epoch (hook_id cb)) (take (Suc k) (callbacks (obj r)))) \<or>
        trace r' = trace r @
             map (\<lambda>cb. Call_trigger_epoch (hook_id cb)) (callbacks (obj r)) @ [Call_flush wr]"
  proof (cases tf r rule: trigger_epoch_cases)
    case (hook_raises e r1 k)
    then show ?thesis by auto
  next
    case (no_writer ts r1)
    with w show ?thesis by simp
  next
    case (flush_raises wr' e r1)
    with w show ?thesis by auto
  next
    case (completes wr' r1)
    then show ?thesis by simp
  qed
qed

text \<open>As stated, for every call, C8 fails: when the second hook raises, the writer is not
  flushed.\<close>

theorem Callbacks_trigger_epoch_no_flush_counterexample:
  "writer (obj (trained_run bad_hooks)) = Some 200 \<and>
   map hook_id (callbacks (obj (trained_run bad_hooks))) = [0, 1, 2] \<and>
   raised (Callbacks_trigger_epoch (example_tf [0]) (trained_run bad_hooks)) =
     Some (Exception ''boom'') \<and>
   trace (state_of (Callbacks_trigger_epoch (example_tf [0]) (trained_run bad_hooks))) =
     [Call_trigger_epoch 0, Call_trigger_epoch 1]"
  by (simp add: Callbacks_trigger_epoch_def trained_run_def bad_hooks_def
      SummaryWriter_trigger_epoch_def raising_methods_def Let_def)

theorem Callbacks_trigger_epoch_flush_after_hooks_witness:
  "writer (obj (trained_run good_hooks)) = Some 200 \<and>
   raised (Callbacks_trigger_epoch (example_tf slow_readings) (trained_run good_hooks)) = None \<and>
   (\<exists>log. trace (state_of (Callbacks_trigger_epoch (example_tf slow_readings)
                              (trained_run good_hooks))) =
            [Call_trigger_epoch 0, Call_trigger_epoch 1, Call_trigger_epoch 2] @
            Call_flush 200 # log \<and>
          (\<forall>ev\<in>set log. is_Log_info ev)) \<and>
   writer (obj (trained_run bad_hooks)) = Some 200 \<and>
   callbacks (obj (trained_run bad_hooks)) =
     [SummaryWriter 0] @ Instance ''Bad'' 1 raising_methods #
       [Instance ''Callback'' 2 Callback_methods] \<and>
   raised (Callbacks_trigger_epoch (example_tf slow_readings) (trained_run bad_hooks)) =
     Some (Exception ''boom'') \<and>
   trace (state_of (Callbacks_trigger_epoch (example_tf slow_readings) (trained_run bad_hooks))) =
     [Call_trigger_epoch 0, Call_trigger_epoch 1] \<and>
   raised (Callbacks_trigger_epoch (failing_flush_tf slow_readings) (trained_run good_hooks)) =
     Some (Exception ''disk'') \<and>
   trace (state_of (Callbacks_trigger_epoch (failing_flush_tf slow_readings)
                      (trained_run good_hooks))) =
     [Call_trigger_epoch 0, Call_trigger_epoch 1, Call_trigger_epoch 2, Call_flush 200]"
proof -
  let ?tf = "example_tf slow_readings"
  let ?ff = "failing_flush_tf slow_readings"
  let ?g = "trained_run good_hooks"
  let ?b = "trained_run bad_hooks"
  let ?cb = "Instance ''Bad'' 1 raising_methods :: world hook"
  have wg: "writer (obj ?g) = Some 200" and wb: "writer (obj ?b) = Some 200"
    by (simp_all add: trained_run_def)
  note g = Callbacks_trigger_epoch_flush_after_hooks [OF wg, of ?tf]
  note b = Callbacks_trigger_epoch_flush_after_hooks [OF wb, of ?tf]
  note f = Callbacks_trigger_epoch_flush_after_hooks [OF wg, of ?ff]
  have "raised (trigger_epoch_loop ?tf (callbacks (obj ?g)) [] (?g\<lparr>ticks := ticks ?g + 1\<rparr>)) = None"
    unfolding trained_run_simps(3) by (rule good_hooks_loop_returns(1))
  then obtain ts r1 where
    l: "trigger_epoch_loop ?tf (callbacks (obj ?g)) [] (?g\<lparr>ticks := ticks ?g + 1\<rparr>) = Return ts r1"
    using Return_if_not_raised by blast
  have fl: "flush ?tf 200 (world r1) = Return () (world r1)" by (simp add: example_tf_def)
  from g [THEN conjunct2, THEN conjunct2, THEN conjunct1, rule_format, OF l fl]
  obtain r' log where
    ret: "Callbacks_trigger_epoch ?tf ?g = Return () r'"
    and tr: "trace r' = trace ?g @
             map (\<lambda>cb. Call_trigger_epoch (hook_id cb)) (callbacks (obj ?g)) @
             Call_flush 200 # log"
    and lg: "\<forall>ev\<in>set log. is_Log_info ev"
    by blast
  have n: "raised (Callbacks_trigger_epoch ?tf ?g) = None" unfolding ret by simp
  have "trace (state_of (Callbacks_trigger_epoch ?tf ?g)) =
            [Call_trigger_epoch 0, Call_trigger_epoch 1, Call_trigger_epoch 2] @
            Call_flush 200 # log"
    unfolding ret using tr by (simp add: trained_run_simps good_hooks_def)
  with lg have t: "\<exists>log. trace (state_of (Callbacks_trigger_epoch ?tf ?g)) =
            [Call_trigger_epoch 0, Call_trigger_epoch 1, Call_trigger_epoch 2] @
            Call_flush 200 # log \<and> (\<forall>ev\<in>set log. is_Log_info ev)"
    by blast
  have h: "callbacks (obj ?b) =
     [SummaryWriter 0] @ ?cb # [Instance ''Callback'' 2 Callback_methods]"
    by (simp add: trained_run_def bad_hooks_def)
  have "raised (trigger_epoch_loop ?tf [SummaryWriter 0] [] (?b\<lparr>ticks := ticks ?b + 1\<rparr>)) = None"
    by (simp add: trained_run_def SummaryWriter_trigger_epoch_def Let_def)
  then obtain ts3 r3 where
    l3: "trigger_epoch_loop ?tf [SummaryWriter 0] [] (?b\<lparr>ticks := ticks ?b + 1\<rparr>) = Return ts3 r3"
    using Return_if_not_raised by blast
  have h3: "hook_trigger_epoch ?tf ?cb (world r3) = Raise (Exception ''boom'') (world r3)"
    by (simp add: raising_methods_def)
  from b [THEN conjunct1, rule_format, OF h l3 h3]
  have e: "Callbacks_trigger_epoch ?tf ?b =
      Raise (Exception ''boom'') (r3\<lparr>ticks := ticks r3 + 1, world := world r3,
         trace := trace ?b @ map (\<lambda>cb. Call_trigger_epoch (hook_id cb)) ([SummaryWriter 0] @ [?cb])\<rparr>)"
    .
  have be: "raised (Callbacks_trigger_epoch ?tf ?b) = Some (Exception ''boom'')"
    unfolding e by simp
  have bt: "trace (state_of (Callbacks_trigger_epoch ?tf ?b)) =
     [Call_trigger_epoch 0, Call_trigger_epoch 1]"
    unfolding e by (simp add: trained_run_simps)
  have "raised (trigger_epoch_loop ?ff (callbacks (obj ?g)) [] (?g\<lparr>ticks := ticks ?g + 1\<rparr>)) = None"
    unfolding trained_run_simps(3) by (rule good_hooks_loop_returns(2))
  then obtain ts4 r4 where
    l4: "trigger_epoch_loop ?ff (callbacks (obj ?g)) [] (?g\<lparr>ticks := ticks ?g + 1\<rparr>) = Return ts4 r4"
    using Return_if_not_raised by blast
  have fl4: "flush ?ff 200 (world r4) = Raise (Exception ''disk'') (world r4)"
    by (simp add: failing_flush_tf_def)
  from f [THEN conjunct2, THEN conjunct1, rule_format, OF l4 fl4]
  have d: "Callbacks_trigger_epoch ?ff ?g =
      Raise (Exception ''disk'') (r4\<lparr>world := world r4,
         trace := trace ?g @ map (\<lambda>cb. Call_trigger_epoch (hook_id cb)) (callbacks (obj ?g)) @
           [Call_flush 200]\<rparr>)"
    .
  have fe: "raised (Callbacks_trigger_epoch ?ff ?g) = Some (Exception ''disk'')"
    unfolding d by simp
  have ft: "trace (state_of (Callbacks_trigger_epoch ?ff ?g)) =
     [Call_trigger_epoch 0, Call_trigger_epoch 1, Call_trigger_epoch 2, Call_flush 200]"
    unfolding d by (simp add: trained_run_simps good_hooks_def)
  from wg n t wb h be bt fe ft show ?thesis by blast
qed

text \<open>
  C3, amended. Let every hook and the flush return, so that the call of \<^verbatim>\<open>trigger_epoch\<close>
  returns, and let the total \<open>T = total_time tf r\<close> (the clock after the flush minus the
  clock at the start) be at least 3 seconds. Then exactly one line is logged, after the
  flush; it carries \<open>T\<close> and, in list order, one entry for each index \<open>k\<close> whose hook took a
  time \<open>t\<close> with \<open>t > 1\<close> and with the float quotient of \<open>t\<close> by \<open>T\<close> above the float
  \<^verbatim>\<open>0.3\<close>, and for no other index; the entry is the name of the hook's class with \<open>t\<close>.
  A call that raises, in a hook or in the flush, logs no line, however long it took.
\<close>

theorem Callbacks_trigger_epoch_names_heavy_hooks:
  "(\<forall>ts r1 wr u w.
      trigger_epoch_loop tf (callbacks (obj r)) [] (r\<lparr>ticks := ticks r + 1\<rparr>) = Return ts r1 \<longrightarrow>
      writer (obj r) = Some wr \<longrightarrow>
      flush tf wr (world r1) = Return u w \<longrightarrow>
      3 \<le> total_time tf r \<longrightarrow>
      Callbacks_trigger_epoch tf r =
        Return () (r1\<lparr>world := w, ticks := ticks r1 + 1,
          trace := trace r @ map (\<lambda>cb. Call_trigger_epoch (hook_id cb)) (callbacks (obj r)) @
            [Call_flush wr,
             Log_info (total_time tf r)
               (map (\<lambda>k. (type_name (callbacks (obj r) ! k), hook_time tf r k))
                  (filter (\<lambda>k. float_0_3 < float_div tf (hook_time tf r k) (total_time tf r) \<and>
                                1 < hook_time tf r k)
                     [0..<length (callbacks (obj r))]))]\<rparr>)) \<and>
   (\<forall>r'. Callbacks_trigger_epoch tf r = Return () r' \<longrightarrow> 3 \<le> total_time tf r \<longrightarrow>
      (\<exists>wr. writer (obj r) = Some wr \<and>
         trace r' = trace r @
           map (\<lambda>cb. Call_trigger_epoch (hook_id cb)) (callbacks (obj r)) @
           [Call_flush wr,
            Log_info (total_time tf r)
              (map (\<lambda>k. (type_name (callbacks (obj r) ! k), hook_time tf r k))
                 (filter (\<lambda>k. float_0_3 < float_div tf (hook_time tf r k) (total_time tf r) \<and>
                               1 < hook_time tf r k)
                    [0..<length (callbacks (obj r))]))])) \<and>
   (\<forall>e r'. Callbacks_trigger_epoch tf r = Raise e r' \<longrightarrow>
      (\<exists>evs. trace r' = trace r @ evs \<and> (\<forall>ev\<in>set evs. \<not> is_Log_info ev)))"
proof (intro conjI)
  show "\<forall>ts r1 wr u w.
      trigger_epoch_loop tf (callbacks (obj r)) [] (r\<lparr>ticks := ticks r + 1\<rparr>) = Return ts r1 \<longrightarrow>
      writer (obj r) = Some wr \<longrightarrow>
      flush tf wr (world r1) = Return u w \<longrightarrow>
      3 \<le> total_time tf r \<longrightarrow>
      Callbacks_trigger_epoch tf r =
        Return () (r1\<lparr>world := w, ticks := ticks r1 + 1,
          trace := trace r @ map (\<lambda>cb. Call_trigger_epoch (hook_id cb)) (callbacks (obj r)) @
            [Call_flush wr,
             Log_info (total_time tf r)
               (map (\<lambda>k. (type_name (callbacks (obj r) ! k), hook_time tf r k))
                  (filter (\<lambda>k. float_0_3 < float_div tf (hook_time tf r k) (total_time tf r) \<and>
                                1 < hook_time tf r k)
                     [0..<length (callbacks (obj r))]))]\<rparr>)"
    by (intro allI impI) (rule trigger_epoch_logs_at)
  show "\<forall>r'. Callbacks_trigger_epoch tf r = Return () r' \<longrightarrow> 3 \<le> total_time tf r \<longrightarrow>
      (\<exists>wr. writer (obj r) = Some wr \<and>
         trace r' = trace r @
           map (\<lambda>cb. Call_trigger_epoch (hook_id cb)) (callbacks (obj r)) @
           [Call_flush wr,
            Log_info (total_time tf r)
              (map (\<lambda>k. (type_name (callbacks (obj r) ! k), hook_time tf r k))
                 (filter (\<lambda>k. float_0_3 < float_div tf (hook_time tf r k) (total_time tf r) \<and>
                               1 < hook_time tf r k)
                    [0..<length (callbacks (obj r))]))])"
  proof (cases tf r rule: trigger_epoch_cases)
    case (hook_raises e r1 k)
    then show ?thesis by simp
  next
    case (no_writer ts r1)
    then show ?thesis by simp
  next
    case (flush_raises wr e r1)
    then show ?thesis by simp
  next
    case (completes wr r1)
    then show ?thesis by (simp add: heavy_by_index)
  qed
  show "\<forall>e r'. Callbacks_trigger_epoch tf r = Raise e r' \<longrightarrow>
      (\<exists>evs. trace r' = trace r @ evs \<and> (\<forall>ev\<in>set evs. \<not> is_Log_info ev))"
  proof (cases tf r rule: trigger_epoch_cases)
    case (hook_raises e r1 k)
    then show ?thesis by auto
  next
    case (no_writer ts r1)
    then show ?thesis by auto
  next
    case (flush_raises wr e r1)
    then show ?thesis by auto
  next
    case (completes wr r1)
    then show ?thesis by simp
  qed
qed

text \<open>As stated, for every dispatch that takes 3 seconds or more, C3 fails: the dispatch
  takes 4.5 seconds, the second hook 2 seconds of them, which is more than 30 percent of
  the total and more than 1 second; the flush raises, and no line is logged, so the hook
  is not named.\<close>

theorem Callbacks_trigger_epoch_failing_flush_counterexample:
  "3 \<le> total_time (failing_flush_tf stalled_readings) (trained_run good_hooks) \<and>
   3 / 10 * total_time (failing_flush_tf stalled_readings) (trained_run good_hooks)
     < hook_time (failing_flush_tf stalled_readings) (trained_run good_hooks) (Suc 0) \<and>
   1 < hook_time (failing_flush_tf stalled_readings) (trained_run good_hooks) (Suc 0) \<and>
   raised (Callbacks_trigger_epoch (failing_flush_tf stalled_readings) (trained_run good_hooks)) =
     Some (Exception ''disk'') \<and>
   trace (state_of (Callbacks_trigger_epoch (failing_flush_tf stalled_readings)
                      (trained_run good_hooks))) =
     [Call_trigger_epoch 0, Call_trigger_epoch 1, Call_trigger_epoch 2, Call_flush 200]"
  by (simp add: example_times example_outcomes)

theorem Callbacks_trigger_epoch_names_heavy_hooks_witness:
  "3 \<le> total_time (example_tf slow_readings) (trained_run good_hooks) \<and>
   raised (Callbacks_trigger_epoch (example_tf slow_readings) (trained_run good_hooks)) = None \<and>
   trace (state_of (Callbacks_trigger_epoch (example_tf slow_readings) (trained_run good_hooks))) =
     [Call_trigger_epoch 0, Call_trigger_epoch 1, Call_trigger_epoch 2, Call_flush 200,
      Log_info 4 [(''PeriodicSaver'', 3)]] \<and>
   raised (Callbacks_trigger_epoch (failing_flush_tf stalled_readings) (trained_run good_hooks)) =
     Some (Exception ''disk'') \<and>
   (\<exists>evs. trace (state_of (Callbacks_trigger_epoch (failing_flush_tf stalled_readings)
                              (trained_run good_hooks))) =
            trace (trained_run good_hooks) @ evs \<and>
          (\<forall>ev\<in>set evs. \<not> is_Log_info ev))"
proof -
  let ?tf = "example_tf slow_readings"
  let ?ff = "failing_flush_tf stalled_readings"
  let ?g = "trained_run good_hooks"
  note g = Callbacks_trigger_epoch_names_heavy_hooks [of ?tf ?g]
  note f = Callbacks_trigger_epoch_names_heavy_hooks [of ?ff ?g]
  have "raised (trigger_epoch_loop ?tf (callbacks (obj ?g)) [] (?g\<lparr>ticks := ticks ?g + 1\<rparr>)) = None"
    unfolding trained_run_simps(3) by (rule good_hooks_loop_returns(1))
  then obtain ts r1 where
    l: "trigger_epoch_loop ?tf (callbacks (obj ?g)) [] (?g\<lparr>ticks := ticks ?g + 1\<rparr>) = Return ts r1"
    using Return_if_not_raised by blast
  have w: "writer (obj ?g) = Some 200" by (simp add: trained_run_simps)
  have fl: "flush ?tf 200 (world r1) = Return () (world r1)" by (simp add: example_tf_def)
  have T: "3 \<le> total_time ?tf ?g" by (simp add: example_times)
  have up: "[0..<length good_hooks] = [0, Suc 0, 2]"
    by (simp add: good_hooks_def upt_rec)
  have msgs: "map (\<lambda>k. (type_name (callbacks (obj ?g) ! k), hook_time ?tf ?g k))
                  (filter (\<lambda>k. float_0_3 < float_div ?tf (hook_time ?tf ?g k) (total_time ?tf ?g) \<and>
                                1 < hook_time ?tf ?g k)
                     [0..<length (callbacks (obj ?g))]) = [(''PeriodicSaver'', 3)]"
    unfolding trained_run_simps up
    by (simp add: example_times clock_simps float_0_3_def) (simp add: good_hooks_def)
  note res = g [THEN conjunct1, rule_format, OF l w fl T, unfolded msgs]
  have n: "raised (Callbacks_trigger_epoch ?tf ?g) = None" unfolding res by simp
  have t: "trace (state_of (Callbacks_trigger_epoch ?tf ?g)) =
     [Call_trigger_epoch 0, Call_trigger_epoch 1, Call_trigger_epoch 2, Call_flush 200,
      Log_info 4 [(''PeriodicSaver'', 3)]]"
    unfolding res by (simp add: trained_run_simps example_times) (simp add: good_hooks_def)
  have e: "raised (Callbacks_trigger_epoch ?ff ?g) = Some (Exception ''disk'')"
    by (simp add: example_outcomes)
  then obtain r'' where rai: "Callbacks_trigger_epoch ?ff ?g = Raise (Exception ''disk'') r''"
    using Raise_if_raised by blast
  from f [THEN conjunct2, THEN conjunct2, rule_format, OF rai]
  have p: "\<exists>evs. trace (state_of (Callbacks_trigger_epoch ?ff ?g)) = trace ?g @ evs \<and>
          (\<forall>ev\<in>set evs. \<not> is_Log_info ev)"
    unfolding rai by simp
  from T n t e p show ?thesis by blast
qed

text \<open>
  C4, amended. If the total \<open>T = total_time tf r\<close>, the clock after the flush minus the clock
  at the start of the dispatch (line 119 against line 112, so the hooks, the flush and what
  passes between them), is less than 3 seconds, then the call of \<^verbatim>\<open>trigger_epoch\<close> logs no
  line, whatever the readings of the clock in between, and whatever way the call ends.
\<close>

theorem Callbacks_trigger_epoch_silent_below_three_seconds:
  assumes "total_time tf r < 3"
  shows "\<exists>evs. trace (state_of (Callbacks_trigger_epoch tf r)) = trace r @ evs \<and>
               (\<forall>ev\<in>set evs. \<not> is_Log_info ev)"
proof (cases tf r rule: trigger_epoch_cases)
  case (hook_raises e r1 k)
  then show ?thesis by auto
next
  case (no_writer ts r1)
  then show ?thesis by auto
next
  case (flush_raises wr e r1)
  then show ?thesis by auto
next
  case (completes wr r1)
  with assms show ?thesis by auto
qed

text \<open>As stated, with the total taken across the hooks, C4 fails: three hooks take a
  quarter of a second each, 0.75 seconds in all, the flush takes 3.25 seconds, and the
  line \<^verbatim>\<open>Callbacks took 4.0 sec.\<close> is logged, naming no hook.\<close>

theorem Callbacks_trigger_epoch_slow_flush_counterexample:
  "hook_time (example_tf slow_flush_readings) (trained_run good_hooks) 0 +
   hook_time (example_tf slow_flush_readings) (trained_run good_hooks) (Suc 0) +
   hook_time (example_tf slow_flush_readings) (trained_run good_hooks) 2 = 3 / 4 \<and>
   length (callbacks (obj (trained_run good_hooks))) = 3 \<and>
   raised (Callbacks_trigger_epoch (example_tf slow_flush_readings) (trained_run good_hooks)) =
     None \<and>
   trace (state_of (Callbacks_trigger_epoch (example_tf slow_flush_readings)
                      (trained_run good_hooks))) =
     [Call_trigger_epoch 0, Call_trigger_epoch 1, Call_trigger_epoch 2, Call_flush 200,
      Log_info 4 []]"
proof -
  have "Callbacks_trigger_epoch (example_tf slow_flush_readings) (trained_run good_hooks) =
     Return ()
       ((trained_run good_hooks)
          \<lparr>ticks := 8,
           trace := [Call_trigger_epoch 0, Call_trigger_epoch 1, Call_trigger_epoch 2,
                     Call_flush 200, Log_info 4 []]\<rparr>)"
    by (simp add: Callbacks_trigger_epoch_def trained_run_def good_hooks_def
      example_tf_def Callback_methods_def SummaryWriter_trigger_epoch_def
      Let_def clock_of_def slow_flush_readings_def float_0_3_def)
  then show ?thesis
    by (simp add: example_times) (simp add: trained_run_simps good_hooks_def)
qed

theorem Callbacks_trigger_epoch_silent_below_three_seconds_witness:
  "total_time (example_tf skewed_readings) (trained_run good_hooks) < 3 \<and>
   hook_time (example_tf skewed_readings) (trained_run good_hooks) (Suc 0) = 2 \<and>
   (\<exists>evs. trace (state_of (Callbacks_trigger_epoch (example_tf skewed_readings)
                              (trained_run good_hooks))) =
            trace (trained_run good_hooks) @ evs \<and>
          (\<forall>ev\<in>set evs. \<not> is_Log_info ev))"
proof -
  have h: "total_time (example_tf skewed_readings) (trained_run good_hooks) < 3"
    by (simp add: example_times)
  have "hook_time (example_tf skewed_readings) (trained_run good_hooks) (Suc 0) = 2"
    by (simp add: example_times)
  with h Callbacks_trigger_epoch_silent_below_three_seconds [OF h] show ?thesis by blast
qed

text \<open>
  C10, amended. \<^verbatim>\<open>trigger_epoch\<close> on an aggregator whose \<^verbatim>\<open>writer\<close> has never been
  assigned: no guard rejects the call. The hooks are called in list order, the call always
  raises, and it neither flushes nor logs (the last two conjuncts). If every hook returns,
  the error is the \<^verbatim>\<open>AttributeError\<close> of \<^verbatim>\<open>self.writer\<close> at line 118, after all the hooks
  (first conjunct). If the hooks of \<open>pre\<close> return and the next hook \<open>cb\<close> raises \<open>e\<close>, the
  call raises this \<open>e\<close>, having called the hooks of \<open>pre\<close> and \<open>cb\<close> only (second conjunct);
  the \<^verbatim>\<open>SummaryWriter\<close> at index 0 is such a hook when its own \<^verbatim>\<open>before_train\<close> has not
  run, since its \<^verbatim>\<open>summary_op\<close> is missing (third conjunct).
\<close>

theorem Callbacks_trigger_epoch_without_before_train:
  assumes w: "writer (obj r) = None"
  shows
    "(\<forall>ts r1. trigger_epoch_loop tf (callbacks (obj r)) [] (r\<lparr>ticks := ticks r + 1\<rparr>) = Return ts r1 \<longrightarrow>
        Callbacks_trigger_epoch tf r = Raise (AttributeError ''Callbacks'' ''writer'') r1 \<and>
        trace r1 = trace r @ map (\<lambda>cb. Call_trigger_epoch (hook_id cb)) (callbacks (obj r))) \<and>
     (\<forall>pre cb post ts r1 e w. callbacks (obj r) = pre @ cb # post \<longrightarrow>
        trigger_epoch_loop tf pre [] (r\<lparr>ticks := ticks r + 1\<rparr>) = Return ts r1 \<longrightarrow>
        hook_trigger_epoch tf cb (world r1) = Raise e w \<longrightarrow>
        Callbacks_trigger_epoch tf r =
          Raise e (r1\<lparr>ticks := ticks r1 + 1, world := w,
                     trace := trace r @ map (\<lambda>cb. Call_trigger_epoch (hook_id cb)) (pre @ [cb])\<rparr>)) \<and>
     (\<forall>a rest. callbacks (obj r) = SummaryWriter a # rest \<longrightarrow>
        summary_op (sw_obj (world r) a) = None \<longrightarrow>
        Callbacks_trigger_epoch tf r =
          Raise (AttributeError ''SummaryWriter'' ''summary_op'')
            (r\<lparr>ticks := ticks r + 2, trace := trace r @ [Call_trigger_epoch a]\<rparr>)) \<and>
     raised (Callbacks_trigger_epoch tf r) \<noteq> None \<and>
     (\<exists>k\<le>length (callbacks (obj r)).
        trace (state_of (Callbacks_trigger_epoch tf r)) =
          trace r @ map (\<lambda>cb. Call_trigger_epoch (hook_id cb)) (take k (callbacks (obj r))))"
proof (intro conjI)
  show "\<forall>ts r1. trigger_epoch_loop tf (callbacks (obj r)) [] (r\<lparr>ticks := ticks r + 1\<rparr>) = Return ts r1 \<longrightarrow>
        Callbacks_trigger_epoch tf r = Raise (AttributeError ''Callbacks'' ''writer'') r1 \<and>
        trace r1 = trace r @ map (\<lambda>cb. Call_trigger_epoch (hook_id cb)) (callbacks (obj r))"
    using w by (intro allI impI conjI) (rule trigger_epoch_no_writer_at; assumption)+
  show "\<forall>pre cb post ts r1 e w. callbacks (obj r) = pre @ cb # post \<longrightarrow>
        trigger_epoch_loop tf pre [] (r\<lparr>ticks := ticks r + 1\<rparr>) = Return ts r1 \<longrightarrow>
        hook_trigger_epoch tf cb (world r1) = Raise e w \<longrightarrow>
        Callbacks_trigger_epoch tf r =
          Raise e (r1\<lparr>ticks := ticks r1 + 1, world := w,
                     trace := trace r @ map (\<lambda>cb. Call_trigger_epoch (hook_id cb)) (pre @ [cb])\<rparr>)"
    by (intro allI impI) (rule trigger_epoch_raises_at)
  show "\<forall>a rest. callbacks (obj r) = SummaryWriter a # rest \<longrightarrow>
        summary_op (sw_obj (world r) a) = None \<longrightarrow>
        Callbacks_trigger_epoch tf r =
          Raise (AttributeError ''SummaryWriter'' ''summary_op'')
            (r\<lparr>ticks := ticks r + 2, trace := trace r @ [Call_trigger_epoch a]\<rparr>)"
    by (simp add: Callbacks_trigger_epoch_def Let_def SummaryWriter_trigger_epoch_def)
  show "raised (Callbacks_trigger_epoch tf r) \<noteq> None"
  proof (cases tf r rule: trigger_epoch_cases)
    case (hook_raises e r1 k)
    then show ?thesis by simp
  next
    case (no_writer ts r1)
    then show ?thesis by simp
  next
    case (flush_raises wr e r1)
    with w show ?thesis by simp
  next
    case (completes wr r1)
    with w show ?thesis by simp
  qed
  show "\<exists>k\<le>length (callbacks (obj r)).
        trace (state_of (Callbacks_trigger_epoch tf r)) =
          trace r @ map (\<lambda>cb. Call_trigger_epoch (hook_id cb)) (take k (callbacks (obj r)))"
  proof (cases tf r rule: trigger_epoch_cases)
    case (hook_raises e r1 k)
    then have "Suc k \<le> length (callbacks (obj r))" and
      "trace (state_of (Callbacks_trigger_epoch tf r)) =
          trace r @ map (\<lambda>cb. Call_trigger_epoch (hook_id cb)) (take (Suc k) (callbacks (obj r)))"
      by simp_all
    then show ?thesis by blast
  next
    case (no_writer ts r1)
    then have "trace (state_of (Callbacks_trigger_epoch tf r)) =
          trace r @ map (\<lambda>cb. Call_trigger_epoch (hook_id cb))
            (take (length (callbacks (obj r))) (callbacks (obj r)))"
      by simp
    then show ?thesis by blast
  next
    case (flush_raises wr e r1)
    with w show ?thesis by simp
  next
    case (completes wr r1)
    with w show ?thesis by simp
  qed
qed

text \<open>As stated C10 fails on the aggregator fresh from its constructor: the
  \<^verbatim>\<open>SummaryWriter\<close> at index 0 raises, the two hooks after it are never called, and the
  error is not the one of the flush.\<close>

theorem Callbacks_trigger_epoch_fresh_SummaryWriter_counterexample:
  "writer (obj (fresh_run good_hooks)) = None \<and>
   map hook_id (callbacks (obj (fresh_run good_hooks))) = [0, 1, 2] \<and>
   raised (Callbacks_trigger_epoch (example_tf [0]) (fresh_run good_hooks)) =
     Some (AttributeError ''SummaryWriter'' ''summary_op'') \<and>
   trace (state_of (Callbacks_trigger_epoch (example_tf [0]) (fresh_run good_hooks))) =
     [Call_trigger_epoch 0]"
  by (simp add: Callbacks_trigger_epoch_def fresh_run_def good_hooks_def
      SummaryWriter_trigger_epoch_def SummaryWriter_init_def Let_def)

theorem Callbacks_trigger_epoch_without_before_train_witness:
  "writer (obj (half_trained_run good_hooks)) = None \<and>
   raised (Callbacks_trigger_epoch (example_tf [0]) (half_trained_run good_hooks)) =
     Some (AttributeError ''Callbacks'' ''writer'') \<and>
   trace (state_of (Callbacks_trigger_epoch (example_tf [0]) (half_trained_run good_hooks))) =
     [Call_trigger_epoch 0, Call_trigger_epoch 1, Call_trigger_epoch 2] \<and>
   writer (obj (half_trained_run bad_hooks)) = None \<and>
   callbacks (obj (half_trained_run bad_hooks)) =
     [SummaryWriter 0] @ Instance ''Bad'' 1 raising_methods #
       [Instance ''Callback'' 2 Callback_methods] \<and>
   raised (Callbacks_trigger_epoch (example_tf [0]) (half_trained_run bad_hooks)) =
     Some (Exception ''boom'') \<and>
   trace (state_of (Callbacks_trigger_epoch (example_tf [0]) (half_trained_run bad_hooks))) =
     [Call_trigger_epoch 0, Call_trigger_epoch 1] \<and>
   writer (obj (fresh_run good_hooks)) = None \<and>
   raised (Callbacks_trigger_epoch (example_tf [0]) (fresh_run good_hooks)) =
     Some (AttributeError ''SummaryWriter'' ''summary_op'') \<and>
   trace (state_of (Callbacks_trigger_epoch (example_tf [0]) (fresh_run good_hooks))) =
     [Call_trigger_epoch 0]"
proof -
  let ?tf = "example_tf [0]"
  let ?h = "half_trained_run good_hooks"
  let ?b = "half_trained_run bad_hooks"
  let ?f = "fresh_run good_hooks"
  let ?cb = "Instance ''Bad'' 1 raising_methods :: world hook"
  have wh: "writer (obj ?h) = None" and wb: "writer (obj ?b) = None"
    by (simp_all add: half_trained_run_def)
  have wf: "writer (obj ?f) = None" by (simp add: fresh_run_def)
  note th = Callbacks_trigger_epoch_without_before_train [OF wh, of ?tf]
  note tb = Callbacks_trigger_epoch_without_before_train [OF wb, of ?tf]
  note tf = Callbacks_trigger_epoch_without_before_train [OF wf, of ?tf]
  have "raised (trigger_epoch_loop ?tf (callbacks (obj ?h)) [] (?h\<lparr>ticks := ticks ?h + 1\<rparr>)) = None"
    by (simp add: half_trained_run_def trained_run_def good_hooks_def Callback_methods_def
        SummaryWriter_trigger_epoch_def Let_def)
  then obtain ts r1 where
    l: "trigger_epoch_loop ?tf (callbacks (obj ?h)) [] (?h\<lparr>ticks := ticks ?h + 1\<rparr>) = Return ts r1"
    using Return_if_not_raised by blast
  from th [THEN conjunct1, rule_format, OF l] have
    a: "Callbacks_trigger_epoch ?tf ?h = Raise (AttributeError ''Callbacks'' ''writer'') r1"
    and b: "trace r1 = trace ?h @ map (\<lambda>cb. Call_trigger_epoch (hook_id cb)) (callbacks (obj ?h))"
    by simp_all
  have ha: "raised (Callbacks_trigger_epoch ?tf ?h) = Some (AttributeError ''Callbacks'' ''writer'')"
    unfolding a by simp
  have hb: "trace (state_of (Callbacks_trigger_epoch ?tf ?h)) =
     [Call_trigger_epoch 0, Call_trigger_epoch 1, Call_trigger_epoch 2]"
    unfolding a using b by (simp add: half_trained_run_def trained_run_def good_hooks_def)
  have cb: "callbacks (obj ?b) =
     [SummaryWriter 0] @ ?cb # [Instance ''Callback'' 2 Callback_methods]"
    by (simp add: half_trained_run_def bad_hooks_def)
  have "raised (trigger_epoch_loop ?tf [SummaryWriter 0] [] (?b\<lparr>ticks := ticks ?b + 1\<rparr>)) = None"
    by (simp add: half_trained_run_def trained_run_def SummaryWriter_trigger_epoch_def Let_def)
  then obtain ts3 r3 where
    l3: "trigger_epoch_loop ?tf [SummaryWriter 0] [] (?b\<lparr>ticks := ticks ?b + 1\<rparr>) = Return ts3 r3"
    using Return_if_not_raised by blast
  have h3: "hook_trigger_epoch ?tf ?cb (world r3) = Raise (Exception ''boom'') (world r3)"
    by (simp add: raising_methods_def)
  note e = tb [THEN conjunct2, THEN conjunct1, rule_format, OF cb l3 h3]
  have ba: "raised (Callbacks_trigger_epoch ?tf ?b) = Some (Exception ''boom'')"
    unfolding e by simp
  have bb: "trace (state_of (Callbacks_trigger_epoch ?tf ?b)) =
     [Call_trigger_epoch 0, Call_trigger_epoch 1]"
    unfolding e by (simp add: half_trained_run_def trained_run_def)
  have c: "callbacks (obj ?f) = SummaryWriter 0 # [Instance ''PeriodicSaver'' 1 Callback_methods,
      Instance ''Callback'' 2 Callback_methods]"
    by (simp add: fresh_run_def good_hooks_def)
  have s: "summary_op (sw_obj (world ?f) 0) = None"
    by (simp add: fresh_run_def SummaryWriter_init_def)
  note d = tf [THEN conjunct2, THEN conjunct2, THEN conjunct1, rule_format, OF c s]
  have fa: "raised (Callbacks_trigger_epoch ?tf ?f) =
     Some (AttributeError ''SummaryWriter'' ''summary_op'')"
    unfolding d by simp
  have fb: "trace (state_of (Callbacks_trigger_epoch ?tf ?f)) = [Call_trigger_epoch 0]"
    unfolding d by (simp add: fresh_run_def)
  from wh ha hb wb cb ba bb wf fa fb show ?thesis by blast
qed

end
